theory Spec2Isabelle
  imports Main "HOL-Library.Word" "HOL-Library.AList"
begin

unbundle bit_operations_syntax

section \<open>The in-memory store (ukv\_stl\_embedded.cpp)\<close>

subsection \<open>Data model\<close>

text \<open>
  Bytes are 8-bit words, keys are 64-bit integers and sequence numbers are the 64-bit
  signed \<^verbatim>\<open>ssize_t\<close>: a \<^typ>\<open>64 word\<close> that is compared with the signed order
  \<open>\<le>s\<close> and incremented with wrap-around, as the atomic counter of the source is.
\<close>

type_synonym byte_t = "8 word"
type_synonym key_t = "64 word"
type_synonym value_t = "byte_t list"
type_synonym sequence_t = "64 word"

record sequenced_value_t =
  data :: value_t
  sequence_number :: sequence_t

record collection_t =
  name :: string
  pairs :: "key_t \<rightharpoonup> sequenced_value_t"

text \<open>
  A collection is identified by its address. The unnamed collection is a member of the
  database object; every named collection is an object of its own, owned by the
  \<open>named\<close> map of the database.
\<close>

datatype collection_ptr_t = Unnamed | Named nat

record located_key_t =
  collection_ptr :: collection_ptr_t
  key :: key_t

text \<open>
  The two hash maps of a transaction are association lists with \<open>insert_or_assign\<close>
  as \<^const>\<open>AList.update\<close>; the order of the list is the iteration order of the map.
  The \<^verbatim>\<open>db_ptr\<close> of the source is left out: the database is passed explicitly.
\<close>

record txn_t =
  requested_keys :: "(located_key_t \<times> sequence_t) list"
  new_values :: "(located_key_t \<times> value_t) list"
  sequence_number :: sequence_t

record db_t =
  unnamed :: collection_t
  named :: "string \<rightharpoonup> nat"
  collections :: "nat \<Rightarrow> collection_t"
  youngest_sequence :: sequence_t
  persisted_path :: string

datatype ukv_error_t =
    Failed_to_put
  | Failed_to_allocate_memory_for_exports
  | Failed_to_put_into_transaction
  | Requested_key_was_already_overwritten
  | Cant_commit_same_entry_more_than_once
  | Incoming_key_collides_with_newer_entry
  | Not_enough_memory
  | Failed_to_initialize_the_transaction

subsection \<open>Sequence arithmetic\<close>

definition entry_was_overwritten :: "sequence_t \<Rightarrow> sequence_t \<Rightarrow> sequence_t \<Rightarrow> bool" where
  "entry_was_overwritten entry_sequence transaction_sequence youngest =
     (if transaction_sequence \<le>s youngest
      then (transaction_sequence \<le>s entry_sequence) \<and> (entry_sequence \<le>s youngest)
      else (transaction_sequence \<le>s entry_sequence) \<or> (entry_sequence \<le>s youngest))"

subsection \<open>Options and collection lookup\<close>

type_synonym options_t = "64 word"

definition consistent_k :: options_t where "consistent_k = 1"
definition colocated_k :: options_t where "colocated_k = 2"
definition transaparent_read_k :: options_t where "transaparent_read_k = 4"
definition flush_write_k :: options_t where "flush_write_k = 8"

definition set_flag :: "options_t \<Rightarrow> bool \<Rightarrow> options_t \<Rightarrow> options_t" where
  "set_flag c_options c_enabled flag =
     (if c_enabled then c_options OR flag else c_options AND NOT flag)"

definition ukv_option_read_consistent :: "options_t \<Rightarrow> bool \<Rightarrow> options_t" where
  "ukv_option_read_consistent c_options c_enabled = set_flag c_options c_enabled consistent_k"

text \<open>
  The array of collection handles is a function of the row index, absent when the caller
  passes a null array; the handle 0 is the null handle.
\<close>

definition collection_at :: "(nat \<Rightarrow> nat) option \<Rightarrow> nat \<Rightarrow> options_t \<Rightarrow> collection_ptr_t" where
  "collection_at c_collections i c_options =
     (case c_collections of
        None \<Rightarrow> Unnamed
      | Some cs \<Rightarrow>
          (let collection_ptr = cs (if c_options AND colocated_k \<noteq> 0 then 0 else i)
           in if collection_ptr = 0 then Unnamed else Named collection_ptr))"

definition collection_of :: "db_t \<Rightarrow> collection_ptr_t \<Rightarrow> collection_t" where
  "collection_of db c = (case c of Unnamed \<Rightarrow> unnamed db | Named p \<Rightarrow> collections db p)"

definition pairs_find :: "db_t \<Rightarrow> located_key_t \<Rightarrow> sequenced_value_t option" where
  "pairs_find db lk = pairs (collection_of db (collection_ptr lk)) (key lk)"

definition pairs_insert_or_assign :: "db_t \<Rightarrow> located_key_t \<Rightarrow> sequenced_value_t \<Rightarrow> db_t" where
  "pairs_insert_or_assign db lk e =
     (case collection_ptr lk of
        Unnamed \<Rightarrow> db\<lparr>unnamed := (unnamed db)\<lparr>pairs := (pairs (unnamed db))(key lk \<mapsto> e)\<rparr>\<rparr>
      | Named p \<Rightarrow>
          db\<lparr>collections := (collections db)
                (p := (collections db p)\<lparr>pairs := (pairs (collections db p))(key lk \<mapsto> e)\<rparr>)\<rparr>)"

subsection \<open>Writes and reads on HEAD\<close>

text \<open>
  A write row is a key, the value pointer (\<open>None\<close> is the null pointer, otherwise the
  bytes it points to) and the length. The vector built from \<^verbatim>\<open>[begin, begin + length)\<close>
  holds the first \<open>length\<close> bytes; the range is empty when the length is 0, whatever
  the pointer.
\<close>

type_synonym write_row_t = "key_t \<times> value_t option \<times> nat"

definition value_from :: "value_t option \<Rightarrow> nat \<Rightarrow> value_t" where
  "value_from begin len = (case begin of None \<Rightarrow> [] | Some bytes \<Rightarrow> take len bytes)"

text \<open>
  \<open>fails i\<close> says that the allocation of the bytes of row \<open>i\<close> throws. In the
  overwrite branch the entry has its new sequence number by then; in the insert branch
  the vector is built before the counter is incremented.
\<close>

fun write_head_rows ::
  "(nat \<Rightarrow> bool) \<Rightarrow> (nat \<Rightarrow> nat) option \<Rightarrow> options_t \<Rightarrow> nat \<Rightarrow> write_row_t list \<Rightarrow> db_t
     \<Rightarrow> ukv_error_t option \<times> db_t" where
  "write_head_rows fails c_collections c_options i [] db = (None, db)"
| "write_head_rows fails c_collections c_options i ((k, begin, len) # rows) db =
     (let lk = \<lparr>collection_ptr = collection_at c_collections i c_options, key = k\<rparr>
      in case pairs_find db lk of
           Some entry \<Rightarrow>
             (let s = youngest_sequence db + 1;
                  db1 = db\<lparr>youngest_sequence := s\<rparr>
              in if fails i
                 then (Some Failed_to_put,
                       pairs_insert_or_assign db1 lk (entry\<lparr>sequenced_value_t.sequence_number := s\<rparr>))
                 else write_head_rows fails c_collections c_options (i + 1) rows
                        (pairs_insert_or_assign db1 lk
                           \<lparr>data = value_from begin len, sequence_number = s\<rparr>))
         | None \<Rightarrow>
             if fails i then (Some Failed_to_put, db)
             else (let s = youngest_sequence db + 1;
                       db1 = db\<lparr>youngest_sequence := s\<rparr>
                   in write_head_rows fails c_collections c_options (i + 1) rows
                        (pairs_insert_or_assign db1 lk
                           \<lparr>data = value_from begin len, sequence_number = s\<rparr>)))"

definition ukv_write_head ::
  "(nat \<Rightarrow> bool) \<Rightarrow> db_t \<Rightarrow> write_row_t list \<Rightarrow> (nat \<Rightarrow> nat) option \<Rightarrow> options_t
     \<Rightarrow> ukv_error_t option \<times> db_t" where
  "ukv_write_head fails db rows c_collections c_options =
     write_head_rows fails c_collections c_options 0 rows db"

text \<open>
  A returned value pointer is null, points into the arena at an offset, or points at the
  value buffered in the transaction. The arena is \<open>None\<close> while the caller's arena
  pointer is null (its length is 0 then), and adding an offset to the null pointer gives
  the null pointer.
\<close>

datatype ukv_val_ptr_t = Null_ptr | Arena_ptr nat | Txn_value_ptr located_key_t

type_synonym arena_t = "value_t option"

definition arena_length :: "arena_t \<Rightarrow> nat" where
  "arena_length arena = (case arena of None \<Rightarrow> 0 | Some bytes \<Rightarrow> length bytes)"

definition arena_plus :: "arena_t \<Rightarrow> nat \<Rightarrow> ukv_val_ptr_t" where
  "arena_plus arena off = (case arena of None \<Rightarrow> Null_ptr | Some _ \<Rightarrow> Arena_ptr off)"

definition arena_store :: "arena_t \<Rightarrow> value_t \<Rightarrow> arena_t" where
  "arena_store arena exported =
     (case arena of None \<Rightarrow> None | Some bytes \<Rightarrow> Some (exported @ drop (length exported) bytes))"

fun head_total_bytes ::
  "db_t \<Rightarrow> (nat \<Rightarrow> nat) option \<Rightarrow> options_t \<Rightarrow> nat \<Rightarrow> key_t list \<Rightarrow> nat" where
  "head_total_bytes db c_collections c_options i [] = 0"
| "head_total_bytes db c_collections c_options i (k # ks) =
     (case pairs_find db \<lparr>collection_ptr = collection_at c_collections i c_options, key = k\<rparr> of
        Some entry \<Rightarrow> length (data entry)
      | None \<Rightarrow> 0) + head_total_bytes db c_collections c_options (i + 1) ks"

text \<open>
  The fetch loop returns, for every row, the value pointer and the length, and the bytes
  copied into the arena so far.
\<close>

fun head_fetch ::
  "db_t \<Rightarrow> (nat \<Rightarrow> nat) option \<Rightarrow> options_t \<Rightarrow> arena_t \<Rightarrow> nat \<Rightarrow> value_t \<Rightarrow> key_t list
     \<Rightarrow> (ukv_val_ptr_t \<times> nat) list \<times> value_t" where
  "head_fetch db c_collections c_options arena i exported [] = ([], exported)"
| "head_fetch db c_collections c_options arena i exported (k # ks) =
     (case pairs_find db \<lparr>collection_ptr = collection_at c_collections i c_options, key = k\<rparr> of
        Some entry \<Rightarrow>
          (let (rows, exported') =
                 head_fetch db c_collections c_options arena (i + 1) (exported @ data entry) ks
           in ((arena_plus arena (length exported), length (data entry)) # rows, exported'))
      | None \<Rightarrow>
          (let (rows, exported') =
                 head_fetch db c_collections c_options arena (i + 1) exported ks
           in ((Null_ptr, 0) # rows, exported')))"

definition ukv_read_head ::
  "bool \<Rightarrow> db_t \<Rightarrow> key_t list \<Rightarrow> (nat \<Rightarrow> nat) option \<Rightarrow> options_t \<Rightarrow> arena_t
     \<Rightarrow> ukv_error_t option \<times> arena_t \<times> (ukv_val_ptr_t \<times> nat) list" where
  "ukv_read_head alloc_fails db c_keys c_collections c_options c_arena =
     (let total_bytes = head_total_bytes db c_collections c_options 0 c_keys
      in if total_bytes > arena_length c_arena \<and> alloc_fails
         then (Some Failed_to_allocate_memory_for_exports, c_arena, [])
         else (let arena = (if total_bytes > arena_length c_arena
                            then Some (replicate total_bytes 0) else c_arena);
                   (rows, exported) = head_fetch db c_collections c_options arena 0 [] c_keys
               in (None, arena_store arena exported, rows)))"

subsection \<open>Writes and reads inside a transaction\<close>

fun write_txn_rows ::
  "(nat \<Rightarrow> bool) \<Rightarrow> (nat \<Rightarrow> nat) option \<Rightarrow> options_t \<Rightarrow> nat \<Rightarrow> write_row_t list \<Rightarrow> txn_t
     \<Rightarrow> ukv_error_t option \<times> txn_t" where
  "write_txn_rows fails c_collections c_options i [] txn = (None, txn)"
| "write_txn_rows fails c_collections c_options i ((k, begin, len) # rows) txn =
     (if fails i then (Some Failed_to_put_into_transaction, txn)
      else (let located_key = \<lparr>collection_ptr = collection_at c_collections i c_options, key = k\<rparr>;
                val = value_from begin len
            in write_txn_rows fails c_collections c_options (i + 1) rows
                 (txn\<lparr>new_values := AList.update located_key val (new_values txn)\<rparr>)))"

definition ukv_write_txn ::
  "(nat \<Rightarrow> bool) \<Rightarrow> txn_t \<Rightarrow> write_row_t list \<Rightarrow> (nat \<Rightarrow> nat) option \<Rightarrow> options_t
     \<Rightarrow> ukv_error_t option \<times> txn_t" where
  "ukv_write_txn fails txn rows c_collections c_options =
     write_txn_rows fails c_collections c_options 0 rows txn"

fun txn_total_bytes ::
  "txn_t \<Rightarrow> db_t \<Rightarrow> sequence_t \<Rightarrow> (nat \<Rightarrow> nat) option \<Rightarrow> options_t \<Rightarrow> nat \<Rightarrow> key_t list
     \<Rightarrow> ukv_error_t + nat" where
  "txn_total_bytes txn db youngest c_collections c_options i [] = Inr 0"
| "txn_total_bytes txn db youngest c_collections c_options i (k # ks) =
     (let lk = \<lparr>collection_ptr = collection_at c_collections i c_options, key = k\<rparr>
      in case map_of (new_values txn) lk of
           Some overwrite \<Rightarrow> txn_total_bytes txn db youngest c_collections c_options (i + 1) ks
         | None \<Rightarrow>
             (case pairs_find db lk of
                Some entry \<Rightarrow>
                  if entry_was_overwritten (sequenced_value_t.sequence_number entry)
                       (sequence_number txn) youngest
                  then Inl Requested_key_was_already_overwritten
                  else (case txn_total_bytes txn db youngest c_collections c_options (i + 1) ks of
                          Inl e \<Rightarrow> Inl e
                        | Inr n \<Rightarrow> Inr (length (data entry) + n))
              | None \<Rightarrow> txn_total_bytes txn db youngest c_collections c_options (i + 1) ks))"

fun txn_fetch ::
  "txn_t \<Rightarrow> db_t \<Rightarrow> (nat \<Rightarrow> nat) option \<Rightarrow> options_t \<Rightarrow> arena_t \<Rightarrow> nat \<Rightarrow> value_t \<Rightarrow> key_t list
     \<Rightarrow> (ukv_val_ptr_t \<times> nat) list \<times> value_t" where
  "txn_fetch txn db c_collections c_options arena i exported [] = ([], exported)"
| "txn_fetch txn db c_collections c_options arena i exported (k # ks) =
     (let lk = \<lparr>collection_ptr = collection_at c_collections i c_options, key = k\<rparr>
      in case map_of (new_values txn) lk of
           Some overwrite \<Rightarrow>
             (let (rows, exported') =
                    txn_fetch txn db c_collections c_options arena (i + 1) exported ks
              in ((Txn_value_ptr lk, length overwrite) # rows, exported'))
         | None \<Rightarrow>
             (case pairs_find db lk of
                Some entry \<Rightarrow>
                  (let (rows, exported') =
                         txn_fetch txn db c_collections c_options arena (i + 1)
                           (exported @ data entry) ks
                   in ((arena_plus arena (length exported), length (data entry)) # rows, exported'))
              | None \<Rightarrow>
                  (let (rows, exported') =
                         txn_fetch txn db c_collections c_options arena (i + 1) exported ks
                   in ((Null_ptr, 0) # rows, exported'))))"

text \<open>
  The transaction is taken by mutable reference in the source, so the model returns it
  next to the outputs.
\<close>

definition ukv_read_txn ::
  "bool \<Rightarrow> txn_t \<Rightarrow> db_t \<Rightarrow> key_t list \<Rightarrow> (nat \<Rightarrow> nat) option \<Rightarrow> options_t \<Rightarrow> arena_t
     \<Rightarrow> ukv_error_t option \<times> arena_t \<times> (ukv_val_ptr_t \<times> nat) list \<times> txn_t" where
  "ukv_read_txn alloc_fails txn db c_keys c_collections c_options c_arena =
     (let youngest_sequence_number = youngest_sequence db
      in case txn_total_bytes txn db youngest_sequence_number c_collections c_options 0 c_keys of
           Inl e \<Rightarrow> (Some e, c_arena, [], txn)
         | Inr total_bytes \<Rightarrow>
             if total_bytes \<ge> arena_length c_arena \<and> alloc_fails
             then (Some Failed_to_allocate_memory_for_exports, c_arena, [], txn)
             else (let arena = (if total_bytes \<ge> arena_length c_arena
                                then Some (replicate total_bytes 0) else c_arena);
                       (rows, exported) =
                          txn_fetch txn db c_collections c_options arena 0 [] c_keys
                   in (None, arena_store arena exported, rows, txn)))"

subsection \<open>Transactions\<close>

text \<open>
  \<open>c_txn\<close> is the handle the caller passes in: \<open>None\<close> is the null handle, for which a
  transaction is allocated. When that allocation throws, the source reports the error
  (and then dereferences the null handle); the model stops at the error.
\<close>

definition ukv_txn_begin ::
  "bool \<Rightarrow> db_t \<Rightarrow> 64 word \<Rightarrow> txn_t option \<Rightarrow> ukv_error_t option \<times> db_t \<times> txn_t option" where
  "ukv_txn_begin alloc_fails db c_sequence_number c_txn =
     (if c_txn = None \<and> alloc_fails
      then (Some Failed_to_initialize_the_transaction, db, None)
      else (let txn = (case c_txn of
                         None \<Rightarrow> \<lparr>requested_keys = [], new_values = [], sequence_number = 0\<rparr>
                       | Some t \<Rightarrow> t);
                db' = (if c_sequence_number \<noteq> 0 then db
                       else db\<lparr>youngest_sequence := youngest_sequence db + 1\<rparr>);
                s = (if c_sequence_number \<noteq> 0 then c_sequence_number
                     else youngest_sequence db')
            in (None, db',
                Some (txn\<lparr>sequence_number := s, requested_keys := [], new_values := []\<rparr>))))"

fun check_refreshes :: "db_t \<Rightarrow> (located_key_t \<times> sequence_t) list \<Rightarrow> ukv_error_t option" where
  "check_refreshes db [] = None"
| "check_refreshes db ((located_key, located_sequence) # rest) =
     (case pairs_find db located_key of
        Some entry \<Rightarrow>
          if sequenced_value_t.sequence_number entry \<noteq> located_sequence
          then Some Requested_key_was_already_overwritten
          else check_refreshes db rest
      | None \<Rightarrow> check_refreshes db rest)"

fun check_collisions ::
  "db_t \<Rightarrow> sequence_t \<Rightarrow> sequence_t \<Rightarrow> (located_key_t \<times> value_t) list \<Rightarrow> ukv_error_t option" where
  "check_collisions db txn_sequence youngest [] = None"
| "check_collisions db txn_sequence youngest ((located_key, val) # rest) =
     (case pairs_find db located_key of
        Some entry \<Rightarrow>
          if sequenced_value_t.sequence_number entry = txn_sequence
          then Some Cant_commit_same_entry_more_than_once
          else if entry_was_overwritten (sequenced_value_t.sequence_number entry)
                    txn_sequence youngest
          then Some Incoming_key_collides_with_newer_entry
          else check_collisions db txn_sequence youngest rest
      | None \<Rightarrow> check_collisions db txn_sequence youngest rest)"

text \<open>
  The import loop stamps every entry with the sequence number of the transaction. An
  entry that exists swaps its bytes with the buffered ones; a new entry takes the
  buffered bytes by move, which leaves the buffer empty.
\<close>

fun import_values ::
  "sequence_t \<Rightarrow> (located_key_t \<times> value_t) list \<Rightarrow> db_t
     \<Rightarrow> (located_key_t \<times> value_t) list \<times> db_t" where
  "import_values txn_sequence [] db = ([], db)"
| "import_values txn_sequence ((located_key, val) # rest) db =
     (let old = (case pairs_find db located_key of Some entry \<Rightarrow> data entry | None \<Rightarrow> []);
          db' = pairs_insert_or_assign db located_key
                  \<lparr>data = val, sequence_number = txn_sequence\<rparr>;
          (rest', db'') = import_values txn_sequence rest db'
      in ((located_key, old) # rest', db''))"

text \<open>\<open>reserve_fails\<close> says that reserving room in the hash tables throws.\<close>

definition ukv_txn_commit ::
  "bool \<Rightarrow> txn_t \<Rightarrow> db_t \<Rightarrow> ukv_error_t option \<times> txn_t \<times> db_t" where
  "ukv_txn_commit reserve_fails txn db =
     (let youngest_sequence_number = youngest_sequence db
      in case check_refreshes db (requested_keys txn) of
           Some e \<Rightarrow> (Some e, txn, db)
         | None \<Rightarrow>
             (case check_collisions db (sequence_number txn) youngest_sequence_number
                     (new_values txn) of
                Some e \<Rightarrow> (Some e, txn, db)
              | None \<Rightarrow>
                  if reserve_fails then (Some Not_enough_memory, txn, db)
                  else (let (vals, db') = import_values (sequence_number txn) (new_values txn) db
                        in (None, txn\<lparr>new_values := vals\<rparr>, db'))))"

text \<open>A database as \<^verbatim>\<open>ukv_open\<close> creates it: no entries, the counter at 0.\<close>

definition empty_collection :: collection_t where
  "empty_collection = \<lparr>name = [], pairs = Map.empty\<rparr>"

definition ukv_open :: db_t where
  "ukv_open = \<lparr>unnamed = empty_collection, named = Map.empty,
                collections = (\<lambda>p. empty_collection), youngest_sequence = 0,
                persisted_path = []\<rparr>"

section \<open>The paths modality (modality\_paths.cpp)\<close>

subsection \<open>Memory\<close>

text \<open>
  Buckets are views into the memory of the arena and are edited in place, so the memory
  is explicit: the byte at every address, and which addresses are allocated. A store, a
  copy or a move that touches a byte that is not allocated is an access out of bounds,
  which is undefined in the source: the operation has no result then. \<open>memmove\<close> reads
  its source before it writes, and the counters are 32-bit, little-endian. Loading a
  counter or the bytes of a view is not checked: it gives what the memory holds.
\<close>

record memory_t =
  contents :: "nat \<Rightarrow> byte_t"
  allocated :: "nat \<Rightarrow> bool"

type_synonym ukv_length_t = "32 word"

definition in_bounds :: "memory_t \<Rightarrow> nat \<Rightarrow> nat \<Rightarrow> bool" where
  "in_bounds mem p n = list_all (allocated mem) [p..<p + n]"

definition load_bytes :: "memory_t \<Rightarrow> nat \<Rightarrow> nat \<Rightarrow> byte_t list" where
  "load_bytes mem p n = map (contents mem) [p..<p + n]"

definition write_bytes :: "memory_t \<Rightarrow> nat \<Rightarrow> byte_t list \<Rightarrow> memory_t" where
  "write_bytes mem p bytes =
     mem\<lparr>contents :=
           (\<lambda>a. if p \<le> a \<and> a < p + length bytes then bytes ! (a - p) else contents mem a)\<rparr>"

definition store_bytes :: "memory_t \<Rightarrow> nat \<Rightarrow> byte_t list \<Rightarrow> memory_t option" where
  "store_bytes mem p bytes =
     (if in_bounds mem p (length bytes) then Some (write_bytes mem p bytes) else None)"

definition memmove :: "memory_t \<Rightarrow> nat \<Rightarrow> nat \<Rightarrow> nat \<Rightarrow> memory_t option" where
  "memmove mem dst src n =
     (if in_bounds mem src n then store_bytes mem dst (load_bytes mem src n) else None)"

definition length_bytes :: "ukv_length_t \<Rightarrow> byte_t list" where
  "length_bytes x = [ucast x, ucast (drop_bit 8 x), ucast (drop_bit 16 x), ucast (drop_bit 24 x)]"

definition load_length :: "memory_t \<Rightarrow> nat \<Rightarrow> ukv_length_t" where
  "load_length mem p =
     ucast (contents mem p) OR push_bit 8 (ucast (contents mem (p + 1))) OR
       push_bit 16 (ucast (contents mem (p + 2))) OR push_bit 24 (ucast (contents mem (p + 3)))"

definition store_length :: "memory_t \<Rightarrow> nat \<Rightarrow> ukv_length_t \<Rightarrow> memory_t option" where
  "store_length mem p x = store_bytes mem p (length_bytes x)"

text \<open>What the arena does when it allocates \<open>n\<close> bytes at the address \<open>p\<close>.\<close>

definition arena_alloc :: "memory_t \<Rightarrow> nat \<Rightarrow> nat \<Rightarrow> memory_t" where
  "arena_alloc mem p n = mem\<lparr>allocated := (\<lambda>a. allocated mem a \<or> (p \<le> a \<and> a < p + n))\<rparr>"

subsection \<open>Views and iterators\<close>

text \<open>
  Modelled from the spec: \<^verbatim>\<open>value_view_t\<close>, whose declaration is not among the sources.
  An absent entry and an empty one are distinct states (section 3 of the specification),
  so a view is either missing, which is what the default \<^verbatim>\<open>{}\<close> is and what converts to
  \<^verbatim>\<open>false\<close>, or a pointer with a length. A string view is a pointer with a length; the
  default one is empty.
\<close>

type_synonym string_view = "nat \<times> nat"
type_synonym value_view_t = "(nat \<times> nat) option"

definition view_data :: "value_view_t \<Rightarrow> nat" where
  "view_data v = (case v of None \<Rightarrow> 0 | Some (p, n) \<Rightarrow> p)"

definition view_size :: "value_view_t \<Rightarrow> nat" where
  "view_size v = (case v of None \<Rightarrow> 0 | Some (p, n) \<Rightarrow> n)"

definition view_bytes :: "memory_t \<Rightarrow> nat \<times> nat \<Rightarrow> byte_t list" where
  "view_bytes mem v = load_bytes mem (fst v) (snd v)"

definition counter_size_k :: nat where "counter_size_k = 4"
definition bytes_in_header_k :: nat where "bytes_in_header_k = counter_size_k"

definition get_bucket_size :: "memory_t \<Rightarrow> value_view_t \<Rightarrow> ukv_length_t" where
  "get_bucket_size mem bucket =
     (if view_size bucket > bytes_in_header_k then load_length mem (view_data bucket) else 0)"

text \<open>
  \<^verbatim>\<open>std::accumulate\<close> over \<open>n\<close> counters from \<open>first\<close>, in 64-bit arithmetic that
  the 32-bit counters of one bucket cannot overflow.
\<close>

definition accumulate :: "memory_t \<Rightarrow> nat \<Rightarrow> nat \<Rightarrow> nat" where
  "accumulate mem first n = (\<Sum>i\<leftarrow>[0..<n]. unat (load_length mem (first + counter_size_k * i)))"

text \<open>
  Modelled from the spec: the iterators over consecutive strings and binaries, whose
  declarations are not among the sources. An iterator is the address of the current
  counter and the address of the current bytes; dereferencing gives the bytes with the
  counter as length, and advancing skips the counter and that many bytes.
\<close>

type_synonym consecutive_iterator_t = "nat \<times> nat"

definition iterator_deref :: "memory_t \<Rightarrow> consecutive_iterator_t \<Rightarrow> nat \<times> nat" where
  "iterator_deref mem it = (snd it, unat (load_length mem (fst it)))"

definition iterator_next :: "memory_t \<Rightarrow> consecutive_iterator_t \<Rightarrow> consecutive_iterator_t" where
  "iterator_next mem it = (fst it + counter_size_k, snd it + unat (load_length mem (fst it)))"

definition get_bucket_keys :: "value_view_t \<Rightarrow> ukv_length_t \<Rightarrow> consecutive_iterator_t" where
  "get_bucket_keys bucket bucket_size =
     (let lengths = view_data bucket;
          bytes_for_counters = unat (bucket_size * 2) * counter_size_k
      in (lengths + counter_size_k, view_data bucket + bytes_in_header_k + bytes_for_counters))"

definition get_bucket_vals :: "memory_t \<Rightarrow> value_view_t \<Rightarrow> ukv_length_t \<Rightarrow> consecutive_iterator_t" where
  "get_bucket_vals mem bucket bucket_size =
     (let lengths = view_data bucket;
          bytes_for_counters = unat (bucket_size * 2) * counter_size_k;
          bytes_for_keys = accumulate mem (lengths + counter_size_k) (unat bucket_size)
      in (lengths + counter_size_k * (1 + unat bucket_size),
          view_data bucket + bytes_in_header_k + bytes_for_counters + bytes_for_keys))"

subsection \<open>Reading a bucket\<close>

text \<open>A member is its index, its key and its value, as the structured bindings take it apart.\<close>

type_synonym bucket_member_t = "nat \<times> string_view \<times> value_view_t"

fun bucket_members ::
  "memory_t \<Rightarrow> nat \<Rightarrow> nat \<Rightarrow> consecutive_iterator_t \<Rightarrow> consecutive_iterator_t
     \<Rightarrow> bucket_member_t list" where
  "bucket_members mem 0 i bucket_keys bucket_vals = []"
| "bucket_members mem (Suc n) i bucket_keys bucket_vals =
     (i, iterator_deref mem bucket_keys, Some (iterator_deref mem bucket_vals)) #
     bucket_members mem n (i + 1) (iterator_next mem bucket_keys) (iterator_next mem bucket_vals)"

text \<open>\<open>for_each_in_bucket\<close> gives the members in the order in which the callback sees them.\<close>

definition for_each_in_bucket :: "memory_t \<Rightarrow> value_view_t \<Rightarrow> bucket_member_t list" where
  "for_each_in_bucket mem bucket =
     (let bucket_size = get_bucket_size mem bucket
      in if bucket_size = 0 then []
         else bucket_members mem (unat bucket_size) 0
                (get_bucket_keys bucket bucket_size) (get_bucket_vals mem bucket bucket_size))"

definition find_in_bucket :: "memory_t \<Rightarrow> value_view_t \<Rightarrow> byte_t list \<Rightarrow> bucket_member_t" where
  "find_in_bucket mem bucket key_str =
     foldl (\<lambda>result member. if view_bytes mem (fst (snd member)) = key_str then member else result)
       (0, (0, 0), None) (for_each_in_bucket mem bucket)"

definition starts_with :: "byte_t list \<Rightarrow> byte_t list \<Rightarrow> bool" where
  "starts_with str prefix = (length str \<ge> length prefix \<and> take (length prefix) str = prefix)"

subsection \<open>Removing from a bucket\<close>

text \<open>
  \<open>remove_part\<close> moves as many bytes as the full view has without the part, from the
  end of the part to its beginning, whatever the place of the part in the full view, and
  returns the shortened view. The result is \<open>None\<close> when the move is out of bounds. A
  part longer than the full view makes the unsigned \<open>moved_length\<close> wrap around to a
  length that no block has, so the move is out of bounds then.
\<close>

definition remove_part ::
  "memory_t \<Rightarrow> nat \<times> nat \<Rightarrow> nat \<times> nat \<Rightarrow> (memory_t \<times> (nat \<times> nat)) option" where
  "remove_part mem full part =
     (if snd full < snd part then None
      else (let removed_length = snd part;
                moved_length = snd full - snd part
            in case memmove mem (fst part) (fst part + snd part) moved_length of
                 None \<Rightarrow> None
               | Some mem' \<Rightarrow> Some (mem', (fst full, snd full - removed_length))))"

definition remove_from_bucket ::
  "memory_t \<Rightarrow> value_view_t \<Rightarrow> byte_t list \<Rightarrow> (memory_t \<times> value_view_t) option" where
  "remove_from_bucket mem bucket key_str =
     (let (old_idx, old_key, old_val) = find_in_bucket mem bucket key_str
      in case old_val of
           None \<Rightarrow> Some (mem, bucket)
         | Some old_val_view \<Rightarrow>
             (let old_size = get_bucket_size mem bucket
              in if old_size = 1 then Some (mem, None)
                 else
                   (case remove_part mem (view_data bucket, view_size bucket) old_val_view of
                      None \<Rightarrow> None
                    | Some (mem1, bucket1) \<Rightarrow>
                   (case remove_part mem1 bucket1 old_key of
                      None \<Rightarrow> None
                    | Some (mem2, bucket2) \<Rightarrow>
                   (let begin = fst bucket2;
                        value_length_bytes =
                          (begin + counter_size_k * (unat old_size + old_idx + 1), counter_size_k)
                    in case remove_part mem2 bucket2 value_length_bytes of
                         None \<Rightarrow> None
                       | Some (mem3, bucket3) \<Rightarrow>
                   (let key_length_bytes =
                          (begin + counter_size_k * (old_idx + 1), counter_size_k)
                    in case remove_part mem3 bucket3 key_length_bytes of
                         None \<Rightarrow> None
                       | Some (mem4, bucket4) \<Rightarrow>
                   (case store_length mem4 begin (load_length mem4 begin - 1) of
                      None \<Rightarrow> None
                    | Some mem5 \<Rightarrow> Some (mem5, Some bucket4))))))))"

subsection \<open>Upserting into a bucket\<close>

text \<open>
  The copying loop of \<open>upsert_in_bucket\<close>: \<open>n\<close> members are left, \<open>i\<close> is the index of
  the current one, and the counters of a copied member are stored at index \<open>i\<close> of the
  new arrays. The result is \<open>None\<close> when a store or a copy is out of bounds.
\<close>

fun upsert_copy ::
  "bool \<Rightarrow> nat \<Rightarrow> nat \<Rightarrow> nat \<Rightarrow> nat \<Rightarrow> nat \<Rightarrow> consecutive_iterator_t \<Rightarrow> consecutive_iterator_t
     \<Rightarrow> nat \<Rightarrow> nat \<Rightarrow> memory_t \<Rightarrow> (memory_t \<times> nat \<times> nat) option" where
  "upsert_copy is_missing old_idx new_keys_lengths new_vals_lengths 0 i old_keys old_vals
     new_keys_output new_vals_output mem = Some (mem, new_keys_output, new_vals_output)"
| "upsert_copy is_missing old_idx new_keys_lengths new_vals_lengths (Suc n) i old_keys old_vals
     new_keys_output new_vals_output mem =
     (if \<not> is_missing \<and> i = old_idx
      then upsert_copy is_missing old_idx new_keys_lengths new_vals_lengths n (i + 1)
             (iterator_next mem old_keys) (iterator_next mem old_vals)
             new_keys_output new_vals_output mem
      else (let old_key = iterator_deref mem old_keys;
                old_val = iterator_deref mem old_vals
            in case store_length mem (new_keys_lengths + counter_size_k * i)
                      (of_nat (snd old_key)) of
                 None \<Rightarrow> None
               | Some mem1 \<Rightarrow>
            (case store_length mem1 (new_vals_lengths + counter_size_k * i)
                    (of_nat (snd old_val)) of
               None \<Rightarrow> None
             | Some mem2 \<Rightarrow>
            (case memmove mem2 new_keys_output (fst old_key) (snd old_key) of
               None \<Rightarrow> None
             | Some mem3 \<Rightarrow>
            (case memmove mem3 new_vals_output (fst old_val) (snd old_val) of
               None \<Rightarrow> None
             | Some mem4 \<Rightarrow>
                 upsert_copy is_missing old_idx new_keys_lengths new_vals_lengths n (i + 1)
                   (iterator_next mem4 old_keys) (iterator_next mem4 old_vals)
                   (new_keys_output + snd old_key) (new_vals_output + snd old_val) mem4)))))"

text \<open>
  \<open>alloc\<close> is what the arena answers: \<open>None\<close> when the allocation fails, which the
  first component of the result reports, or the address of the new buffer, which is
  allocated then and whose bytes are whatever the memory holds there. The result is
  \<open>None\<close> when a store or a copy is out of bounds.
\<close>

definition upsert_in_bucket ::
  "memory_t \<Rightarrow> value_view_t \<Rightarrow> byte_t list \<Rightarrow> byte_t list \<Rightarrow> nat option
     \<Rightarrow> (bool \<times> memory_t \<times> value_view_t) option" where
  "upsert_in_bucket mem bucket key_str val alloc =
     (let old_size = get_bucket_size mem bucket;
          old_lengths = view_data bucket;
          old_bytes_for_keys =
            (if bucket \<noteq> None
             then accumulate mem (old_lengths + counter_size_k) (unat old_size) else 0);
          old_bytes_for_vals =
            (if bucket \<noteq> None
             then accumulate mem (old_lengths + counter_size_k * (1 + unat old_size)) (unat old_size)
             else 0);
          (old_idx, old_key, old_val) = find_in_bucket mem bucket key_str;
          is_missing = (old_val = None);
          new_size = old_size + (if is_missing then 1 else 0);
          new_bytes_for_counters = unat (new_size * 2) * counter_size_k;
          new_bytes_for_keys = old_bytes_for_keys - snd old_key + length key_str;
          new_bytes_for_vals = old_bytes_for_vals - view_size old_val + length val;
          new_bytes =
            bytes_in_header_k + new_bytes_for_counters + new_bytes_for_keys + new_bytes_for_vals
      in case alloc of
           None \<Rightarrow> Some (True, mem, bucket)
         | Some new_begin \<Rightarrow>
             (let new_keys_lengths = new_begin + counter_size_k;
                  new_vals_lengths = new_begin + counter_size_k * (1 + unat new_size)
              in case store_length (arena_alloc mem new_begin new_bytes) new_begin new_size of
                   None \<Rightarrow> None
                 | Some mem0 \<Rightarrow>
              (case upsert_copy is_missing old_idx new_keys_lengths new_vals_lengths
                      (unat old_size) 0
                      (get_bucket_keys bucket old_size) (get_bucket_vals mem0 bucket old_size)
                      (new_begin + bytes_in_header_k + new_bytes_for_counters)
                      (new_begin + bytes_in_header_k + new_bytes_for_counters + new_bytes_for_keys)
                      mem0 of
                 None \<Rightarrow> None
               | Some (mem1, new_keys_output, new_vals_output) \<Rightarrow>
              (case store_length mem1
                      (new_keys_lengths + counter_size_k * unat (new_size - 1))
                      (of_nat (length key_str)) of
                 None \<Rightarrow> None
               | Some mem2 \<Rightarrow>
              (case store_length mem2
                      (new_vals_lengths + counter_size_k * unat (new_size - 1))
                      (of_nat (length val)) of
                 None \<Rightarrow> None
               | Some mem3 \<Rightarrow>
              (case store_bytes mem3 new_keys_output key_str of
                 None \<Rightarrow> None
               | Some mem4 \<Rightarrow>
              (case store_bytes mem4 new_vals_output val of
                 None \<Rightarrow> None
               | Some mem5 \<Rightarrow> Some (False, mem5, Some (new_begin, new_bytes)))))))))"

subsection \<open>The store, as the paths modality calls it\<close>

text \<open>
  Modelled from the spec: the hash, the scan and the batched read of the store, which the
  paths modality calls through an interface that is not among the sources. The hash is a
  parameter of the functions that use it. One collection is the list of its entries in
  ascending key order. A scan returns up to \<open>max_count\<close> keys from \<open>min_key\<close> on, the
  key itself included, and from the smallest key when \<open>min_key\<close> is the sentinel
  (section 4.1). A read copies the values one after the other into the arena, at the
  address \<open>tape\<close>, where it allocates them, and returns one offset per key and the final
  one; an absent entry has no bytes. The bin \<open>i\<close> of the joined result lies between the offsets \<open>i\<close> and
  \<open>i + 1\<close>.
\<close>

type_synonym paths_collection_t = "(key_t \<times> value_t) list"

definition ukv_key_unknown_k :: key_t where
  "ukv_key_unknown_k = 0x7FFFFFFFFFFFFFFF"

definition ukv_length_missing_k :: ukv_length_t where
  "ukv_length_missing_k = 0xFFFFFFFF"

definition ukv_scan :: "paths_collection_t \<Rightarrow> key_t \<Rightarrow> ukv_length_t \<Rightarrow> key_t list" where
  "ukv_scan collection min_key max_count =
     take (unat max_count)
       (filter (\<lambda>k. min_key = ukv_key_unknown_k \<or> min_key \<le>s k) (map fst collection))"

fun tape_offsets :: "nat \<Rightarrow> value_t list \<Rightarrow> nat list" where
  "tape_offsets off [] = [off]"
| "tape_offsets off (v # vs) = off # tape_offsets (off + length v) vs"

definition ukv_read_tape ::
  "memory_t \<Rightarrow> nat \<Rightarrow> paths_collection_t \<Rightarrow> key_t list \<Rightarrow> memory_t \<times> nat list" where
  "ukv_read_tape mem tape collection keys =
     (let vals = map (\<lambda>k. case map_of collection k of None \<Rightarrow> [] | Some v \<Rightarrow> v) keys
      in (write_bytes (arena_alloc mem tape (length (concat vals))) tape (concat vals),
          tape_offsets 0 vals))"

definition joined_bins :: "nat \<Rightarrow> nat list \<Rightarrow> nat \<Rightarrow> value_view_t" where
  "joined_bins tape_contents offs i =
     Some (tape_contents + offs ! i, offs ! (i + 1) - offs ! i)"

subsection \<open>Prefix scan\<close>

text \<open>
  The state of the scan: the number of paths found, the previous path, whether the
  previous path has been reached, and the paths exported so far. The callback of the
  scan handles one member; growing the tape of exported paths is taken to succeed.
\<close>

type_synonym scan_state_t = "ukv_length_t \<times> byte_t list \<times> bool \<times> byte_t list list"

definition scan_member ::
  "byte_t list \<Rightarrow> ukv_length_t \<Rightarrow> scan_state_t \<Rightarrow> byte_t list \<Rightarrow> scan_state_t" where
  "scan_member prefix max_count st member_key =
     (case st of (found_paths, previous, has_reached_previous, paths) \<Rightarrow>
        if \<not> starts_with member_key prefix then st
        else if member_key = previous then (found_paths, previous, True, paths)
        else if \<not> has_reached_previous then st
        else if found_paths \<ge> max_count then st
        else (found_paths + 1, member_key, has_reached_previous, paths @ [member_key]))"

definition scan_bucket ::
  "memory_t \<Rightarrow> byte_t list \<Rightarrow> ukv_length_t \<Rightarrow> scan_state_t \<Rightarrow> value_view_t \<Rightarrow> scan_state_t" where
  "scan_bucket mem prefix max_count st bucket =
     foldl (scan_member prefix max_count) st
       (map (\<lambda>member. view_bytes mem (fst (snd member))) (for_each_in_bucket mem bucket))"

text \<open>
  The \<^verbatim>\<open>while\<close> loop of the scan may run forever, so it takes fuel: one unit for every
  test of the loop condition, and \<open>None\<close> when the fuel runs out.
\<close>

fun scan_rounds ::
  "nat \<Rightarrow> (byte_t list \<Rightarrow> key_t) \<Rightarrow> memory_t \<Rightarrow> nat \<Rightarrow> paths_collection_t \<Rightarrow> byte_t list
     \<Rightarrow> ukv_length_t \<Rightarrow> scan_state_t \<Rightarrow> scan_state_t option" where
  "scan_rounds 0 hash mem tape collection prefix max_count st = None"
| "scan_rounds (Suc fuel) hash mem tape collection prefix max_count st =
     (case st of (found_paths, previous, has_reached_previous, paths) \<Rightarrow>
        if \<not> found_paths < max_count then Some st
        else (let previous_key = (if previous = [] then hash previous else ukv_key_unknown_k);
                  found_buckets_keys = ukv_scan collection previous_key max_count
              in if length found_buckets_keys \<le> 1 then Some st
                 else (let (mem', found_buckets_offsets) =
                             ukv_read_tape mem tape collection found_buckets_keys;
                           st' = foldl (scan_bucket mem' prefix max_count) st
                                   (map (joined_bins tape found_buckets_offsets)
                                      [0..<length found_buckets_keys])
                       in scan_rounds fuel hash mem' tape collection prefix max_count st')))"

definition scan_one_collection_one_range ::
  "nat \<Rightarrow> (byte_t list \<Rightarrow> key_t) \<Rightarrow> memory_t \<Rightarrow> nat \<Rightarrow> paths_collection_t \<Rightarrow> byte_t list
     \<Rightarrow> byte_t list \<Rightarrow> ukv_length_t \<Rightarrow> (ukv_length_t \<times> byte_t list list) option" where
  "scan_one_collection_one_range fuel hash mem tape collection prefix previous max_count =
     map_option (\<lambda>st. (fst st, snd (snd (snd st))))
       (scan_rounds fuel hash mem tape collection prefix max_count
          (0, previous, previous = [], []))"

subsection \<open>Reading paths\<close>

text \<open>
  Modelled from the spec: \<^verbatim>\<open>alloc_or_dummy\<close> of the arena, which is not among the
  sources. For an output that the caller asks for it allocates the number of elements it
  is given (section 6: \<^verbatim>\<open>alloc(n_bytes, align)\<close>). The three outputs are arrays of that
  many elements, and a store past the end of one is the error \<open>Out_of_bounds\<close> with the
  array and the index; a move of a value that is out of bounds in the memory is the error
  \<open>Out_of_bounds_memmove\<close>.
\<close>

datatype output_t = Presences | Offsets | Lengths

datatype paths_error_t = Out_of_bounds output_t nat | Out_of_bounds_memmove

definition store_at :: "output_t \<Rightarrow> 'a list \<Rightarrow> nat \<Rightarrow> 'a \<Rightarrow> paths_error_t + 'a list" where
  "store_at out xs i v = (if i < length xs then Inr (xs[i := v]) else Inl (Out_of_bounds out i))"

definition alloc_or_dummy :: "nat \<Rightarrow> ('a::zero) list" where
  "alloc_or_dummy n = replicate n 0"

definition divide_round_up :: "nat \<Rightarrow> nat \<Rightarrow> nat" where
  "divide_round_up n d = (n + d - 1) div d"

definition bits_in_byte_k :: nat where "bits_in_byte_k = 8"

record paths_read_t =
  presences :: "byte_t list"
  offsets :: "ukv_length_t list"
  lengths :: "ukv_length_t list"
  exported_volume :: ukv_length_t
  tape_memory :: memory_t

fun paths_read_rows ::
  "nat \<Rightarrow> nat \<Rightarrow> (byte_t list \<times> value_view_t) list \<Rightarrow> paths_read_t
     \<Rightarrow> paths_error_t + paths_read_t" where
  "paths_read_rows buckets_values i [] st = Inr st"
| "paths_read_rows buckets_values i ((key_str, bucket) # rest) st =
     (case snd (snd (find_in_bucket (tape_memory st) bucket key_str)) of
        Some val \<Rightarrow>
          (case store_at Presences (presences st) i 1 of Inl e \<Rightarrow> Inl e | Inr ps \<Rightarrow>
           case store_at Offsets (offsets st) i (exported_volume st) of Inl e \<Rightarrow> Inl e | Inr os \<Rightarrow>
           case store_at Lengths (lengths st) i (of_nat (snd val)) of Inl e \<Rightarrow> Inl e | Inr ls \<Rightarrow>
           case memmove (tape_memory st) (buckets_values + unat (exported_volume st))
                  (fst val) (snd val) of
             None \<Rightarrow> Inl Out_of_bounds_memmove
           | Some mem' \<Rightarrow>
               paths_read_rows buckets_values (i + 1) rest
                 \<lparr>presences = ps, offsets = os, lengths = ls,
                  exported_volume = exported_volume st + of_nat (snd val),
                  tape_memory = mem'\<rparr>)
      | None \<Rightarrow>
          (case store_at Presences (presences st) i 0 of Inl e \<Rightarrow> Inl e | Inr ps \<Rightarrow>
           case store_at Offsets (offsets st) i (exported_volume st) of Inl e \<Rightarrow> Inl e | Inr os \<Rightarrow>
           case store_at Lengths (lengths st) i ukv_length_missing_k of Inl e \<Rightarrow> Inl e | Inr ls \<Rightarrow>
             paths_read_rows buckets_values (i + 1) rest
               (st\<lparr>presences := ps, offsets := os, lengths := ls\<rparr>)))"

text \<open>
  The call with all four outputs asked for, on one collection. The buckets are read
  into the arena at \<open>tape\<close>, and the values found are moved to the front of that tape.
\<close>

definition ukv_paths_read ::
  "(byte_t list \<Rightarrow> key_t) \<Rightarrow> memory_t \<Rightarrow> nat \<Rightarrow> paths_collection_t \<Rightarrow> byte_t list list
     \<Rightarrow> paths_error_t + paths_read_t" where
  "ukv_paths_read hash mem tape collection paths =
     (let c_tasks_count = length paths;
          buckets_keys = map hash paths;
          (mem', buckets_offsets) = ukv_read_tape mem tape collection buckets_keys;
          buckets = map (joined_bins tape buckets_offsets) [0..<c_tasks_count];
          st = \<lparr>presences = alloc_or_dummy (divide_round_up c_tasks_count bits_in_byte_k),
                offsets = alloc_or_dummy c_tasks_count,
                lengths = alloc_or_dummy c_tasks_count,
                exported_volume = 0, tape_memory = mem'\<rparr>
      in case paths_read_rows tape 0 (zip paths buckets) st of
           Inl e \<Rightarrow> Inl e
         | Inr st' \<Rightarrow>
             (case store_at Offsets (offsets st') c_tasks_count (exported_volume st') of
                Inl e \<Rightarrow> Inl e
              | Inr os \<Rightarrow> Inr (st'\<lparr>offsets := os\<rparr>)))"

section \<open>The bucket layout of the specification\<close>

text \<open>
  What section 3 of the specification says a bucket is: the number of members, their name
  lengths, their value lengths, their names and their values, with little-endian 32-bit
  counters.
\<close>

type_synonym members_t = "(byte_t list \<times> byte_t list) list"

definition key_lengths_bytes :: "members_t \<Rightarrow> byte_t list" where
  "key_lengths_bytes members = concat (map (\<lambda>m. length_bytes (of_nat (length (fst m)))) members)"

definition val_lengths_bytes :: "members_t \<Rightarrow> byte_t list" where
  "val_lengths_bytes members = concat (map (\<lambda>m. length_bytes (of_nat (length (snd m)))) members)"

definition bucket_bytes :: "members_t \<Rightarrow> byte_t list" where
  "bucket_bytes members =
     length_bytes (of_nat (length members)) @ key_lengths_bytes members @
     val_lengths_bytes members @ concat (map fst members) @ concat (map snd members)"

text \<open>Reading a name: the bytes of the value that \<open>find_in_bucket\<close> returns, if any.\<close>

definition bucket_read :: "memory_t \<Rightarrow> value_view_t \<Rightarrow> byte_t list \<Rightarrow> byte_t list option" where
  "bucket_read mem bucket key_str =
     map_option (view_bytes mem) (snd (snd (find_in_bucket mem bucket key_str)))"

text \<open>
  A view holds a well-formed bucket with the given members when it is missing or empty
  and there are no members, or when the memory under it is the layout of the members,
  whose names are distinct, in less than \<open>2 ^ 32\<close> bytes (the length of a view is a
  32-bit counter).
\<close>

definition holds_bucket :: "memory_t \<Rightarrow> value_view_t \<Rightarrow> members_t \<Rightarrow> bool" where
  "holds_bucket mem bucket members =
     (if members = [] then view_size bucket = 0
      else bucket = Some (view_data bucket, length (bucket_bytes members)) \<and>
           load_bytes mem (view_data bucket) (length (bucket_bytes members)) = bucket_bytes members \<and>
           length (bucket_bytes members) < 2 ^ 32 \<and>
           distinct (map fst members))"

text \<open>
  Where the members lie in a well-formed bucket: \<open>member_layout i kc vc members\<close> lists,
  from index \<open>i\<close> on, the views of the names from address \<open>kc\<close> and of the values from
  address \<open>vc\<close>.
\<close>

fun member_layout :: "nat \<Rightarrow> nat \<Rightarrow> nat \<Rightarrow> members_t \<Rightarrow> bucket_member_t list" where
  "member_layout i kc vc [] = []"
| "member_layout i kc vc (m # members) =
     (i, (kc, length (fst m)), Some (vc, length (snd m))) #
     member_layout (i + 1) (kc + length (fst m)) (vc + length (snd m)) members"

section \<open>The overwrite interval of the specification\<close>

text \<open>
  What section 4.1 of the specification says the overwrite test is: the half-open
  interval from \<open>start\<close>, excluded, to \<open>youngest\<close>, included, when \<open>start\<close> is not
  above \<open>youngest\<close>, and otherwise the complement of the interval from \<open>youngest\<close>,
  excluded, to \<open>start\<close>, included.
\<close>

definition spec_overwrite_interval :: "sequence_t \<Rightarrow> sequence_t \<Rightarrow> sequence_t \<Rightarrow> bool" where
  "spec_overwrite_interval entry_seq start youngest =
     (if start \<le>s youngest then start <s entry_seq \<and> entry_seq \<le>s youngest
      else \<not> (youngest <s entry_seq \<and> entry_seq \<le>s start))"

section \<open>Concrete inputs\<close>

subsection \<open>A database, a transaction and a write on HEAD\<close>

definition no_failure :: "nat \<Rightarrow> bool" where
  "no_failure i = False"

definition main_key :: "key_t \<Rightarrow> located_key_t" where
  "main_key k = \<lparr>collection_ptr = Unnamed, key = k\<rparr>"

text \<open>Key 1 holds one byte, written on HEAD with sequence number 1.\<close>

definition db_one :: db_t where
  "db_one = snd (ukv_write_head no_failure ukv_open [(1, Some [10], 1)] None 0)"

text \<open>A transaction begun without a sequence hint, and the database after the begin.\<close>

definition db_begun :: db_t where
  "db_begun = fst (snd (ukv_txn_begin False db_one 0 None))"

definition txn_begun :: txn_t where
  "txn_begun = the (snd (snd (ukv_txn_begin False db_one 0 None)))"

text \<open>The transaction after it has written the keys 2 and 3.\<close>

definition txn_written :: txn_t where
  "txn_written =
     snd (ukv_write_txn no_failure txn_begun [(2, Some [7], 1), (3, Some [8, 9], 2)] None 0)"

text \<open>
  The transaction after it has read key 1 with the consistency flag set, and the database
  after another writer has overwritten key 1 on HEAD.
\<close>

definition txn_after_read :: txn_t where
  "txn_after_read =
     snd (snd (snd (ukv_read_txn False txn_begun db_begun [1] None
                      (ukv_option_read_consistent 0 True) None)))"

definition db_overwritten :: db_t where
  "db_overwritten = snd (ukv_write_head no_failure db_begun [(1, Some [11], 1)] None 0)"

text \<open>
  Key 1 after a row with a null value pointer and length 0, and after a row with a
  pointer to no bytes and length 0.
\<close>

definition db_null_row :: db_t where
  "db_null_row = snd (ukv_write_head no_failure db_one [(1, None, 0)] None 0)"

definition db_empty_row :: db_t where
  "db_empty_row = snd (ukv_write_head no_failure db_one [(1, Some [], 0)] None 0)"

text \<open>A transaction that writes key 1, which the other writer overwrites before the commit.\<close>

definition txn_conflicting :: txn_t where
  "txn_conflicting = snd (ukv_write_txn no_failure txn_begun [(1, Some [12], 1)] None 0)"

subsection \<open>Buckets and collections of paths\<close>

definition zero_memory :: memory_t where
  "zero_memory = \<lparr>contents = (\<lambda>a. 0), allocated = (\<lambda>a. False)\<rparr>"

text \<open>
  A bucket with the members \<open>a\<close> and \<open>bb\<close>, at the address 100, in a block of its
  own: the 26 bytes of the bucket are the only ones allocated.
\<close>

definition two_members :: members_t where
  "two_members = [([97], [1]), ([98, 98], [2, 2])]"

definition mem_two :: memory_t where
  "mem_two =
     write_bytes (arena_alloc zero_memory 100 (length (bucket_bytes two_members))) 100
       (bucket_bytes two_members)"

definition bucket_two :: value_view_t where
  "bucket_two = Some (100, length (bucket_bytes two_members))"

text \<open>The result of upserting the member \<open>a\<close>, with a new value, into a buffer at 1000.\<close>

definition upserted :: "bool \<times> memory_t \<times> value_view_t" where
  "upserted = the (upsert_in_bucket mem_two bucket_two [97] [7, 8, 9] (Some 1000))"

text \<open>
  The same bucket at the head of a tape of 64 allocated bytes, as a batched read lays
  buckets out: the bucket with the member \<open>c\<close> follows it at the address 126. And the
  result of removing \<open>a\<close> from the first bucket there.
\<close>

definition next_members :: members_t where
  "next_members = [([99], [3])]"

definition tape_two :: memory_t where
  "tape_two =
     write_bytes (arena_alloc zero_memory 100 64) 100
       (bucket_bytes two_members @ bucket_bytes next_members)"

definition bucket_next :: value_view_t where
  "bucket_next = Some (126, length (bucket_bytes next_members))"

definition removed_on_tape :: "memory_t \<times> value_view_t" where
  "removed_on_tape = the (remove_from_bucket tape_two bucket_two [97])"

text \<open>
  The debug hash of the source is the standard hash modulo 10; the one here adds up the
  bytes of the path, modulo 10.
\<close>

definition debug_hash :: "byte_t list \<Rightarrow> key_t" where
  "debug_hash key_str = of_nat (sum_list (map unat key_str) mod 10)"

definition home_a :: "byte_t list" where "home_a = [104, 111, 109, 101, 47, 97]"
definition home_b :: "byte_t list" where "home_b = [104, 111, 109, 101, 47, 98]"
definition lab_x :: "byte_t list" where "lab_x = [108, 97, 98, 47, 120]"
definition home_prefix :: "byte_t list" where "home_prefix = [104, 111, 109, 101, 47]"

definition one_bucket_collection :: paths_collection_t where
  "one_bucket_collection = [(debug_hash home_a, bucket_bytes [(home_a, [65])])]"

text \<open>
  The collection of scenario 4 of the specification: \<open>home/b\<close> and \<open>lab/x\<close> collide
  in the bucket 0, and \<open>home/a\<close> is alone in the bucket 9.
\<close>

definition two_bucket_collection :: paths_collection_t where
  "two_bucket_collection =
     [(debug_hash home_b, bucket_bytes [(home_b, [66]), (lab_x, [88])]),
      (debug_hash home_a, bucket_bytes [(home_a, [65])])]"

section \<open>Properties of the store\<close>

subsection \<open>The overwrite test\<close>

lemma sint_flip: "sint (a::64 word) = uint (a + 2 ^ 63) - 2 ^ 63"
proof -
  have "sint (word_of_int (uint a) :: 64 word) = (uint a + 2 ^ 63) mod 2 ^ 64 - 2 ^ 63"
    using int_word_sint[where 'a=64, of "uint a"] by simp
  moreover have "uint (a + 2 ^ 63) = (uint a + 2 ^ 63) mod 2 ^ 64"
    by (simp add: uint_word_ariths)
  ultimately show ?thesis by simp
qed

lemma sle_flip: "(a::64 word) \<le>s b \<longleftrightarrow> a + 2 ^ 63 \<le> b + 2 ^ 63"
  by (simp add: word_sle_eq sint_flip word_le_def)

lemma unsigned_interval:
  "(if (s::64 word) \<le> y then s \<le> e \<and> e \<le> y else s \<le> e \<or> e \<le> y) = (e - s \<le> y - s)"
proof (cases "s \<le> y")
  case True
  then show ?thesis by simp unat_arith
next
  case False
  then show ?thesis by simp unat_arith
qed

lemma signed_interval:
  "(if (s::64 word) \<le>s y then s \<le>s e \<and> e \<le>s y else s \<le>s e \<or> e \<le>s y) = (e - s \<le> y - s)"
proof -
  define b :: "64 word" where "b = 2 ^ 63"
  have f: "\<And>x y::64 word. x \<le>s y \<longleftrightarrow> x + b \<le> y + b"
    unfolding b_def by (rule sle_flip)
  have "(e + b) - (s + b) = e - s" "(y + b) - (s + b) = y - s" by simp_all
  with unsigned_interval[of "s + b" "y + b" "e + b"] show ?thesis
    unfolding f by simp
qed

text \<open>
  C2, as the code has it. The test is true exactly when the entry's sequence number
  lies in the closed interval from the start sequence to the youngest one, taken modulo
  \<open>2 ^ 64\<close>: the distance from the start to the entry is at most the distance from the
  start to the youngest. It is the interval of the specification together with the
  start sequence itself, which is always reported as overwritten.
\<close>

theorem entry_was_overwritten_closed_interval:
  "entry_was_overwritten entry_seq start youngest = (entry_seq - start \<le> youngest - start) \<and>
   entry_was_overwritten entry_seq start youngest =
     (entry_seq = start \<or> spec_overwrite_interval entry_seq start youngest) \<and>
   entry_was_overwritten start start youngest"
proof -
  have a: "entry_was_overwritten entry_seq start youngest = (entry_seq - start \<le> youngest - start)"
    for entry_seq
    unfolding entry_was_overwritten_def by (rule signed_interval)
  have eq: "entry_seq = start \<longleftrightarrow> sint entry_seq = sint start"
    by (auto intro: signed_word_eqI)
  have b: "entry_was_overwritten entry_seq start youngest =
             (entry_seq = start \<or> spec_overwrite_interval entry_seq start youngest)"
    unfolding entry_was_overwritten_def spec_overwrite_interval_def eq
    by (auto simp: word_sle_eq word_sless_alt)
  from a[of entry_seq] a[of start] b show ?thesis by simp
qed

text \<open>
  C2, as the claim states it, fails where the entry carries the start sequence of the
  transaction: the code reports it as overwritten and the interval of the specification
  does not contain it.
\<close>

theorem entry_was_overwritten_start_counterexample:
  "entry_was_overwritten 5 5 10 \<and> \<not> spec_overwrite_interval 5 5 10"
  by (simp add: entry_was_overwritten_def spec_overwrite_interval_def word_sle_eq word_sless_alt)

subsection \<open>Entries of the store\<close>

lemma located_key_eq:
  "(lk' = lk) = (collection_ptr lk' = collection_ptr lk \<and> key lk' = key lk)"
  for lk lk' :: located_key_t
  by (cases lk, cases lk') simp

lemma pairs_find_insert_or_assign:
  "pairs_find (pairs_insert_or_assign db lk e) lk' =
     (if lk' = lk then Some e else pairs_find db lk')"
  by (cases "collection_ptr lk"; cases "collection_ptr lk'")
     (auto simp: pairs_find_def pairs_insert_or_assign_def collection_of_def located_key_eq)

lemma youngest_insert_or_assign:
  "youngest_sequence (pairs_insert_or_assign db lk e) = youngest_sequence db"
  by (cases "collection_ptr lk") (simp_all add: pairs_insert_or_assign_def)

lemma pairs_find_youngest_update:
  "pairs_find (db\<lparr>youngest_sequence := s\<rparr>) lk = pairs_find db lk"
  by (cases "collection_ptr lk") (simp_all add: pairs_find_def collection_of_def)

text \<open>The definitions that the evaluation of the concrete inputs unfolds.\<close>

lemmas store_eval = no_failure_def empty_collection_def ukv_open_def main_key_def db_one_def
  db_begun_def txn_begun_def txn_written_def txn_after_read_def db_overwritten_def
  db_null_row_def db_empty_row_def txn_conflicting_def
  ukv_write_head_def ukv_read_head_def ukv_write_txn_def ukv_read_txn_def ukv_txn_begin_def
  ukv_txn_commit_def pairs_find_def pairs_insert_or_assign_def collection_of_def
  collection_at_def value_from_def arena_length_def arena_plus_def arena_store_def
  entry_was_overwritten_def Let_def consistent_k_def set_flag_def
  ukv_option_read_consistent_def word_sle_eq

subsection \<open>Beginning a transaction\<close>

text \<open>
  C10. Unless the allocation of a new handle fails, \<open>ukv_txn_begin\<close> succeeds. With a
  zero hint it advances the youngest sequence of the database by exactly 1 (with the
  wrap-around of the counter) and the incremented value is the sequence number of the
  transaction; a non-zero hint is taken as it is and the counter stays. In both cases
  the read set and the write set of the handle are empty afterwards, and no entry of the
  database changes.
\<close>

theorem ukv_txn_begin_sequence:
  assumes "c_txn \<noteq> None \<or> \<not> alloc_fails"
  shows "\<exists>db' txn'.
           ukv_txn_begin alloc_fails db c_sequence_number c_txn = (None, db', Some txn') \<and>
           youngest_sequence db' =
             (if c_sequence_number = 0 then youngest_sequence db + 1 else youngest_sequence db) \<and>
           sequence_number txn' =
             (if c_sequence_number = 0 then youngest_sequence db + 1 else c_sequence_number) \<and>
           requested_keys txn' = [] \<and> new_values txn' = [] \<and>
           unnamed db' = unnamed db \<and> collections db' = collections db"
  using assms by (auto simp: ukv_txn_begin_def Let_def split: option.splits)

theorem ukv_txn_begin_sequence_witness:
  "fst (ukv_txn_begin True db_begun 0 (Some txn_written)) = None \<and>
   youngest_sequence (fst (snd (ukv_txn_begin True db_begun 0 (Some txn_written)))) = 3 \<and>
   map_option sequence_number (snd (snd (ukv_txn_begin True db_begun 0 (Some txn_written)))) =
     Some 3 \<and>
   map_option new_values (snd (snd (ukv_txn_begin True db_begun 0 (Some txn_written)))) =
     Some [] \<and>
   fst (ukv_txn_begin True db_begun 7 (Some txn_written)) = None \<and>
   youngest_sequence (fst (snd (ukv_txn_begin True db_begun 7 (Some txn_written)))) = 2 \<and>
   map_option sequence_number (snd (snd (ukv_txn_begin True db_begun 7 (Some txn_written)))) =
     Some 7 \<and>
   new_values txn_written \<noteq> []"
proof -
  have h: "Some txn_written \<noteq> None \<or> \<not> True" by simp
  have y: "youngest_sequence db_begun = 2" by (simp add: store_eval)
  have w: "new_values txn_written \<noteq> []" by (simp add: store_eval)
  from ukv_txn_begin_sequence[OF h, where db=db_begun and c_sequence_number=0]
    ukv_txn_begin_sequence[OF h, where db=db_begun and c_sequence_number=7] y w
  show ?thesis by auto
qed

subsection \<open>Committing a transaction\<close>

lemma snd_import_values_Cons:
  "snd (import_values ts ((k, v) # vs) db) =
   snd (import_values ts vs (pairs_insert_or_assign db k \<lparr>data = v, sequence_number = ts\<rparr>))"
  by (simp add: Let_def case_prod_beta)

lemma import_values_youngest:
  "youngest_sequence (snd (import_values ts vs db)) = youngest_sequence db"
proof (induction vs arbitrary: db)
  case Nil
  show ?case by simp
next
  case (Cons a vs)
  then show ?case
    by (cases a) (simp add: snd_import_values_Cons youngest_insert_or_assign del: import_values.simps)
qed

lemma import_values_other:
  "lk \<notin> fst ` set vs \<Longrightarrow> pairs_find (snd (import_values ts vs db)) lk = pairs_find db lk"
proof (induction vs arbitrary: db)
  case Nil
  show ?case by simp
next
  case (Cons a vs)
  then show ?case
    by (cases a)
       (auto simp: snd_import_values_Cons pairs_find_insert_or_assign simp del: import_values.simps)
qed

lemma import_values_stamp:
  "lk \<in> fst ` set vs \<Longrightarrow>
   map_option sequenced_value_t.sequence_number (pairs_find (snd (import_values ts vs db)) lk) =
     Some ts"
proof (induction vs arbitrary: db)
  case Nil
  then show ?case by simp
next
  case (Cons a vs)
  obtain k v where a: "a = (k, v)" by (cases a)
  show ?case
  proof (cases "lk \<in> fst ` set vs")
    case True
    with Cons.IH show ?thesis by (simp add: a snd_import_values_Cons del: import_values.simps)
  next
    case False
    with Cons.prems a have "lk = k" by auto
    with False show ?thesis
      using import_values_other[OF False, of ts
              "pairs_insert_or_assign db k \<lparr>data = v, sequence_number = ts\<rparr>"]
      by (simp add: a snd_import_values_Cons pairs_find_insert_or_assign del: import_values.simps)
  qed
qed

lemma import_values_applied:
  "distinct (map fst vs) \<Longrightarrow> (lk, v) \<in> set vs \<Longrightarrow>
   pairs_find (snd (import_values ts vs db)) lk = Some \<lparr>data = v, sequence_number = ts\<rparr>"
proof (induction vs arbitrary: db)
  case Nil
  then show ?case by simp
next
  case (Cons a vs)
  obtain k w where a: "a = (k, w)" by (cases a)
  show ?case
  proof (cases "(lk, v) \<in> set vs")
    case True
    with Cons show ?thesis by (simp add: a snd_import_values_Cons del: import_values.simps)
  next
    case False
    with Cons.prems a have e: "lk = k" "v = w" by auto
    with Cons.prems a have "lk \<notin> fst ` set vs" by auto
    from import_values_other[OF this, of ts
           "pairs_insert_or_assign db k \<lparr>data = w, sequence_number = ts\<rparr>"] e
    show ?thesis
      by (simp add: a snd_import_values_Cons pairs_find_insert_or_assign del: import_values.simps)
  qed
qed

text \<open>
  C1, as the code has it. A commit that succeeds leaves the youngest sequence of the
  database as it was, whatever the number of writes, and stamps every written entry with
  the sequence number of the transaction, which \<open>ukv_txn_begin\<close> fixed (by incrementing
  the counter then, when the hint was zero).
\<close>

theorem ukv_txn_commit_sequence:
  assumes "ukv_txn_commit reserve_fails txn db = (None, txn', db')"
  shows "youngest_sequence db' = youngest_sequence db \<and>
         (\<forall>lk \<in> fst ` set (new_values txn).
            map_option sequenced_value_t.sequence_number (pairs_find db' lk) =
              Some (sequence_number txn))"
proof -
  from assms have "db' = snd (import_values (sequence_number txn) (new_values txn) db)"
    by (auto simp: ukv_txn_commit_def Let_def split: option.splits if_splits prod.splits)
  then show ?thesis
    by (simp add: import_values_youngest import_values_stamp)
qed

theorem ukv_txn_commit_sequence_witness:
  "fst (ukv_txn_commit False txn_written db_begun) = None \<and>
   youngest_sequence (snd (snd (ukv_txn_commit False txn_written db_begun))) =
     youngest_sequence db_begun \<and>
   map_option sequenced_value_t.sequence_number
     (pairs_find (snd (snd (ukv_txn_commit False txn_written db_begun))) (main_key 2)) =
     Some (sequence_number txn_written) \<and>
   map_option sequenced_value_t.sequence_number
     (pairs_find (snd (snd (ukv_txn_commit False txn_written db_begun))) (main_key 3)) =
     Some (sequence_number txn_written)"
proof -
  have n: "fst (ukv_txn_commit False txn_written db_begun) = None"
    by (simp add: store_eval)
  then have h: "ukv_txn_commit False txn_written db_begun =
     (None, fst (snd (ukv_txn_commit False txn_written db_begun)),
      snd (snd (ukv_txn_commit False txn_written db_begun)))"
    by (simp add: prod_eq_iff)
  have w: "fst ` set (new_values txn_written) = {main_key 2, main_key 3}"
    by (simp add: store_eval)
  from ukv_txn_commit_sequence[OF h] n show ?thesis
    unfolding w by blast
qed

text \<open>
  C1, as the claim states it, fails on a transaction begun at sequence 2 that writes the
  keys 2 and 3: the commit succeeds, the counter is 2 before and after it, not 3, and
  both entries carry the sequence number 2 of the transaction.
\<close>

theorem ukv_txn_commit_fresh_sequence_counterexample:
  "fst (ukv_txn_commit False txn_written db_begun) = None \<and>
   youngest_sequence db_begun = 2 \<and>
   youngest_sequence (snd (snd (ukv_txn_commit False txn_written db_begun))) = 2 \<and>
   pairs_find (snd (snd (ukv_txn_commit False txn_written db_begun))) (main_key 2) =
     Some \<lparr>data = [7], sequence_number = 2\<rparr> \<and>
   pairs_find (snd (snd (ukv_txn_commit False txn_written db_begun))) (main_key 3) =
     Some \<lparr>data = [8, 9], sequence_number = 2\<rparr>"
  by (simp add: store_eval)

text \<open>
  C3. The keys of the write set are distinct, as those of a hash map are. When the commit
  returns an error, whichever it is, the database and the transaction are what they were
  before the call. When it succeeds, every buffered write is the entry of its key, and
  every other entry is unchanged.
\<close>

theorem ukv_txn_commit_atomic:
  assumes "distinct (map fst (new_values txn))"
  shows "case ukv_txn_commit reserve_fails txn db of
           (Some e, txn', db') \<Rightarrow> db' = db \<and> txn' = txn
         | (None, txn', db') \<Rightarrow>
             (\<forall>(lk, v) \<in> set (new_values txn). map_option data (pairs_find db' lk) = Some v) \<and>
             (\<forall>lk. lk \<notin> fst ` set (new_values txn) \<longrightarrow> pairs_find db' lk = pairs_find db lk)"
proof (cases "fst (ukv_txn_commit reserve_fails txn db)")
  case None
  then have "snd (snd (ukv_txn_commit reserve_fails txn db)) =
               snd (import_values (sequence_number txn) (new_values txn) db)"
    by (auto simp: ukv_txn_commit_def Let_def split: option.splits if_splits prod.splits)
  with None assms show ?thesis
    by (auto simp: import_values_other import_values_applied split: prod.splits)
next
  case (Some e)
  then show ?thesis
    by (auto simp: ukv_txn_commit_def Let_def split: option.splits if_splits prod.splits)
qed

theorem ukv_txn_commit_atomic_witness:
  "distinct (map fst (new_values txn_written)) \<and>
   distinct (map fst (new_values txn_conflicting)) \<and>
   fst (ukv_txn_commit False txn_written db_begun) = None \<and>
   map_option data (pairs_find (snd (snd (ukv_txn_commit False txn_written db_begun)))
     (main_key 3)) = Some [8, 9] \<and>
   pairs_find (snd (snd (ukv_txn_commit False txn_written db_begun))) (main_key 1) =
     pairs_find db_begun (main_key 1) \<and>
   ukv_txn_commit False txn_conflicting db_overwritten =
     (Some Incoming_key_collides_with_newer_entry, txn_conflicting, db_overwritten)"
proof -
  have d: "distinct (map fst (new_values txn_written))"
    and d': "distinct (map fst (new_values txn_conflicting))"
    by (simp_all add: store_eval)
  have w: "new_values txn_written = [(main_key 2, [7]), (main_key 3, [8, 9])]"
    by (simp add: store_eval)
  have n: "fst (ukv_txn_commit False txn_written db_begun) = None"
    and c: "fst (ukv_txn_commit False txn_conflicting db_overwritten) =
              Some Incoming_key_collides_with_newer_entry"
    by (simp_all add: store_eval)
  have m: "main_key 1 \<noteq> main_key 2" "main_key 1 \<noteq> main_key 3"
    by (simp_all add: main_key_def)
  from ukv_txn_commit_atomic[OF d, where reserve_fails=False and db=db_begun] n w m
  have "map_option data (pairs_find (snd (snd (ukv_txn_commit False txn_written db_begun)))
          (main_key 3)) = Some [8, 9] \<and>
        pairs_find (snd (snd (ukv_txn_commit False txn_written db_begun))) (main_key 1) =
          pairs_find db_begun (main_key 1)"
    by (auto split: prod.splits)
  moreover from ukv_txn_commit_atomic[OF d', where reserve_fails=False and db=db_overwritten] c
  have "ukv_txn_commit False txn_conflicting db_overwritten =
          (Some Incoming_key_collides_with_newer_entry, txn_conflicting, db_overwritten)"
    by (auto split: prod.splits)
  ultimately show ?thesis using d d' n by simp
qed

subsection \<open>Reads inside a transaction\<close>

lemma ukv_read_txn_keeps_txn:
  "snd (snd (snd (ukv_read_txn alloc_fails txn db c_keys c_collections c_options c_arena))) = txn"
  by (simp add: ukv_read_txn_def Let_def split: sum.splits prod.splits)

text \<open>
  C7 does not hold of the code. A transaction begun at sequence 2 reads key 1 with the
  consistency flag set, and the read succeeds; its read set is empty afterwards. Another
  writer then overwrites key 1 on HEAD, at sequence 3, and the commit of the transaction
  still succeeds: the validation of the commit has no read to check.
\<close>

theorem ukv_read_txn_records_nothing:
  "fst (ukv_read_txn False txn_begun db_begun [1] None (ukv_option_read_consistent 0 True) None) =
     None \<and>
   requested_keys txn_after_read = [] \<and>
   pairs_find db_begun (main_key 1) = Some \<lparr>data = [10], sequence_number = 1\<rparr> \<and>
   pairs_find db_overwritten (main_key 1) = Some \<lparr>data = [11], sequence_number = 3\<rparr> \<and>
   fst (ukv_txn_commit False txn_after_read db_overwritten) = None"
  by (simp add: store_eval)

subsection \<open>Writes on HEAD\<close>

lemma write_head_never_deletes:
  "pairs_find db lk \<noteq> None \<Longrightarrow>
   pairs_find (snd (write_head_rows fails c_collections c_options i rows db)) lk \<noteq> None"
proof (induction rows arbitrary: db i)
  case Nil
  then show ?case by simp
next
  case (Cons row rows)
  obtain k b l where row: "row = (k, b, l)" by (cases row)
  define lk0 where "lk0 = \<lparr>collection_ptr = collection_at c_collections i c_options, key = k\<rparr>"
  define s where "s = youngest_sequence db + 1"
  have keep: "pairs_find (pairs_insert_or_assign (db\<lparr>youngest_sequence := s\<rparr>) lk0 e) lk \<noteq> None"
    for e
    using Cons.prems by (simp add: pairs_find_insert_or_assign pairs_find_youngest_update)
  show ?case
  proof (cases "pairs_find db lk0")
    case None
    show ?thesis
    proof (cases "fails i")
      case True
      with None Cons.prems show ?thesis by (simp add: row lk0_def[symmetric])
    next
      case False
      with None show ?thesis
        using Cons.IH[OF keep]
        by (simp add: row lk0_def[symmetric] s_def[symmetric] Let_def)
    qed
  next
    case (Some entry)
    show ?thesis
    proof (cases "fails i")
      case True
      with Some keep show ?thesis by (simp add: row lk0_def[symmetric] s_def[symmetric] Let_def)
    next
      case False
      with Some show ?thesis
        using Cons.IH[OF keep]
        by (simp add: row lk0_def[symmetric] s_def[symmetric] Let_def)
    qed
  qed
qed

text \<open>
  C4 does not hold of the code. A row with a null value pointer and length 0 leaves the
  database exactly as a row with an empty value does: key 1 keeps an entry, with no bytes
  and the next sequence number. A read of key 1 into an arena returns a pointer into the
  arena with length 0, where a key that was never written returns the null pointer; and
  with a null arena the read of key 1 returns the null pointer and length 0 as well.
\<close>

theorem ukv_write_head_null_row_keeps_key:
  "db_null_row = db_empty_row \<and>
   pairs_find db_null_row (main_key 1) = Some \<lparr>data = [], sequence_number = 2\<rparr> \<and>
   snd (snd (ukv_read_head False db_null_row [1] None 0 (Some [0, 0, 0, 0]))) =
     [(Arena_ptr 0, 0)] \<and>
   snd (snd (ukv_read_head False db_null_row [2] None 0 (Some [0, 0, 0, 0]))) =
     [(Null_ptr, 0)] \<and>
   snd (snd (ukv_read_head False db_null_row [1] None 0 None)) = [(Null_ptr, 0)]"
  by (simp add: store_eval)

section \<open>Properties of the paths modality\<close>

subsection \<open>Upserting into a bucket\<close>

text \<open>
  C5 does not hold of the code. The bucket holds \<open>a\<close> with the value \<open>[1]\<close> and
  \<open>bb\<close> with the value \<open>[2, 2]\<close>, and both read back. Upserting \<open>a\<close> with the
  value \<open>[7, 8, 9]\<close> stays in bounds, succeeds and gives a bucket of 28 bytes that counts
  two members, whose names \<open>bb\<close>, \<open>a\<close> and values follow in that order; but the
  counters of the copied member \<open>bb\<close> were stored at its old index 1, where the counters
  of \<open>a\<close> then replaced them, and the counters at index 0 hold what the buffer held
  before. Neither \<open>a\<close> nor \<open>bb\<close> reads back.
\<close>

theorem upsert_in_bucket_overwrite_loses_members:
  "\<not> Option.is_none (upsert_in_bucket mem_two bucket_two [97] [7, 8, 9] (Some 1000)) \<and>
   \<not> fst upserted \<and> snd (snd upserted) = Some (1000, 28) \<and>
   load_bytes (fst (snd upserted)) 1000 28 =
     [2, 0, 0, 0, 0, 0, 0, 0, 1, 0, 0, 0, 0, 0, 0, 0, 3, 0, 0, 0, 98, 98, 97, 2, 2, 7, 8, 9] \<and>
   bucket_read mem_two bucket_two [97] = Some [1] \<and>
   bucket_read mem_two bucket_two [98, 98] = Some [2, 2] \<and>
   bucket_read (fst (snd upserted)) (snd (snd upserted)) [97] = None \<and>
   bucket_read (fst (snd upserted)) (snd (snd upserted)) [98, 98] = None"
  by code_simp

subsection \<open>Removing from a bucket\<close>

text \<open>
  The first move of a removal from a bucket with several members is
  \<open>remove_part (bucket, old_val)\<close>: it reads as many bytes as the bucket has without the
  value, starting at the end of the value, which is inside the bucket. So whenever it is
  in bounds, bytes past the end of the bucket are allocated.
\<close>

lemma in_bounds_allocated: "in_bounds mem p n \<Longrightarrow> p \<le> a \<Longrightarrow> a < p + n \<Longrightarrow> allocated mem a"
  by (simp add: in_bounds_def list_all_iff)

lemma memmove_in_bounds:
  "memmove mem dst src n = Some mem' \<Longrightarrow> in_bounds mem src n \<and> in_bounds mem dst n"
  by (simp add: memmove_def store_bytes_def load_bytes_def split: if_splits)

lemma remove_part_reads_past_the_end:
  assumes "remove_part mem full part = Some r"
    and "fst full < fst part" and "fst part + snd part \<le> fst full + snd full"
  shows "allocated mem (fst full + snd full)"
proof -
  from assms(1) have le: "snd part \<le> snd full"
    by (simp add: remove_part_def split: if_splits)
  from assms(1) le obtain mem' where
    "memmove mem (fst part) (fst part + snd part) (snd full - snd part) = Some mem'"
    by (auto simp: remove_part_def Let_def split: option.splits)
  then have "in_bounds mem (fst part + snd part) (snd full - snd part)"
    by (simp add: memmove_in_bounds)
  from in_bounds_allocated[OF this, of "fst full + snd full"] show ?thesis
    using assms(2,3) le by simp
qed

text \<open>
  Well-formed buckets: what the readers find in a view that holds the layout of the
  specification.
\<close>

lemma length_load_bytes [simp]: "length (load_bytes mem p n) = n"
  by (simp add: load_bytes_def)

lemma nth_load_bytes: "i < n \<Longrightarrow> load_bytes mem p n ! i = contents mem (p + i)"
  by (simp add: load_bytes_def)

lemma load_bytes_add: "load_bytes mem p (a + b) = load_bytes mem p a @ load_bytes mem (p + a) b"
  by (rule nth_equalityI) (auto simp: nth_load_bytes nth_append)

lemma load_bytes_append:
  assumes "load_bytes mem p (length xs + length ys) = xs @ ys"
  shows "load_bytes mem p (length xs) = xs" and "load_bytes mem (p + length xs) (length ys) = ys"
  using assms by (simp_all add: load_bytes_add)

lemma load_bytes_0 [simp]: "load_bytes mem p 0 = []"
  by (simp add: load_bytes_def)

lemma length_length_bytes [simp]: "length (length_bytes x) = 4"
  by (simp add: length_bytes_def)

lemma bytes_length:
  "ucast (ucast x :: byte_t) OR push_bit 8 (ucast (ucast (drop_bit 8 x) :: byte_t)) OR
     push_bit 16 (ucast (ucast (drop_bit 16 x) :: byte_t)) OR
     push_bit 24 (ucast (ucast (drop_bit 24 x) :: byte_t)) = (x :: 32 word)"
proof (rule bit_word_eqI)
  fix n assume "n < LENGTH(32)"
  then have "n < 8 \<or> (8 \<le> n \<and> n < 16) \<or> (16 \<le> n \<and> n < 24) \<or> (24 \<le> n \<and> n < 32)"
    by auto
  then show "bit (ucast (ucast x :: byte_t) OR push_bit 8 (ucast (ucast (drop_bit 8 x) :: byte_t)) OR
       push_bit 16 (ucast (ucast (drop_bit 16 x) :: byte_t)) OR
       push_bit 24 (ucast (ucast (drop_bit 24 x) :: byte_t)) :: 32 word) n = bit x n"
    by (auto simp: bit_simps)
qed

lemma load_length_bytes:
  assumes "load_bytes mem q 4 = length_bytes x"
  shows "load_length mem q = x"
proof -
  from assms have "[contents mem q, contents mem (q + 1), contents mem (q + 2), contents mem (q + 3)] = length_bytes x"
    by (simp add: load_bytes_def upt_rec numeral_eq_Suc)
  then show ?thesis
    using bytes_length[of x] by (simp add: load_length_def length_bytes_def)
qed

lemma length_key_lengths_bytes [simp]: "length (key_lengths_bytes ms) = 4 * length ms"
  by (induction ms) (simp_all add: key_lengths_bytes_def)

lemma length_val_lengths_bytes [simp]: "length (val_lengths_bytes ms) = 4 * length ms"
  by (induction ms) (simp_all add: val_lengths_bytes_def)

lemma key_lengths_bytes_Cons:
  "key_lengths_bytes (m # ms) = length_bytes (of_nat (length (fst m))) @ key_lengths_bytes ms"
  by (simp add: key_lengths_bytes_def)

lemma val_lengths_bytes_Cons:
  "val_lengths_bytes (m # ms) = length_bytes (of_nat (length (snd m))) @ val_lengths_bytes ms"
  by (simp add: val_lengths_bytes_def)

lemma key_lengths_bytes_append:
  "key_lengths_bytes (ms1 @ ms2) = key_lengths_bytes ms1 @ key_lengths_bytes ms2"
  by (simp add: key_lengths_bytes_def)

lemma val_lengths_bytes_append:
  "val_lengths_bytes (ms1 @ ms2) = val_lengths_bytes ms1 @ val_lengths_bytes ms2"
  by (simp add: val_lengths_bytes_def)

lemma length_bucket_bytes:
  "length (bucket_bytes ms) =
     4 + 8 * length ms + length (concat (map fst ms)) + length (concat (map snd ms))"
  by (simp add: bucket_bytes_def)

lemma length_member_le:
  "m \<in> set ms \<Longrightarrow> length (fst m) \<le> length (concat (map fst ms)) \<and>
                   length (snd m) \<le> length (concat (map snd ms))"
  by (induction ms) auto

lemma unat_of_nat_length:
  "n < 2 ^ 32 \<Longrightarrow> unat (of_nat n :: ukv_length_t) = n"
  by (simp add: unat_of_nat)

text \<open>The iteration over the counters gives the layout.\<close>

lemma bucket_members_layout:
  assumes "load_bytes mem kl (4 * length ms) = key_lengths_bytes ms"
    and "load_bytes mem vl (4 * length ms) = val_lengths_bytes ms"
    and "\<forall>m \<in> set ms. length (fst m) < 2 ^ 32 \<and> length (snd m) < 2 ^ 32"
  shows "bucket_members mem (length ms) i (kl, kc) (vl, vc) = member_layout i kc vc ms"
  using assms
proof (induction ms arbitrary: i kl kc vl vc)
  case Nil
  show ?case by simp
next
  case (Cons m ms)
  from Cons.prems(1) have k: "load_bytes mem kl (length (length_bytes (of_nat (length (fst m)) :: ukv_length_t)) + length (key_lengths_bytes ms)) =
      length_bytes (of_nat (length (fst m))) @ key_lengths_bytes ms"
    by (simp add: key_lengths_bytes_Cons)
  from Cons.prems(2) have v: "load_bytes mem vl (length (length_bytes (of_nat (length (snd m)) :: ukv_length_t)) + length (val_lengths_bytes ms)) =
      length_bytes (of_nat (length (snd m))) @ val_lengths_bytes ms"
    by (simp add: val_lengths_bytes_Cons)
  from load_bytes_append[OF k] have k1: "load_length mem kl = of_nat (length (fst m))"
    and k2: "load_bytes mem (kl + 4) (4 * length ms) = key_lengths_bytes ms"
    by (simp_all add: load_length_bytes)
  from load_bytes_append[OF v] have v1: "load_length mem vl = of_nat (length (snd m))"
    and v2: "load_bytes mem (vl + 4) (4 * length ms) = val_lengths_bytes ms"
    by (simp_all add: load_length_bytes)
  from Cons.prems(3) have b: "length (fst m) < 2 ^ 32" "length (snd m) < 2 ^ 32"
    and r: "\<forall>m \<in> set ms. length (fst m) < 2 ^ 32 \<and> length (snd m) < 2 ^ 32"
    by simp_all
  have "bucket_members mem (length ms) (i + 1) (kl + 4, kc + length (fst m)) (vl + 4, vc + length (snd m)) =
          member_layout (i + 1) (kc + length (fst m)) (vc + length (snd m)) ms"
    by (rule Cons.IH[OF k2 v2 r])
  then show ?case
    using b by (simp add: iterator_deref_def iterator_next_def counter_size_k_def k1 v1 unat_of_nat_length)
qed

lemma sum_list_upt_Suc:
  "(\<Sum>i\<leftarrow>[0..<Suc n]. f i) = f 0 + (\<Sum>i\<leftarrow>[0..<n]. f (Suc i))"
proof -
  have "[0..<Suc n] = 0 # map Suc [0..<n]"
    by (simp add: upt_conv_Cons map_Suc_upt del: upt_Suc)
  then show ?thesis by (simp add: comp_def del: upt_Suc)
qed

lemma accumulate_keys:
  assumes "load_bytes mem kl (4 * length ms) = key_lengths_bytes ms"
    and "\<forall>m \<in> set ms. length (fst m) < 2 ^ 32"
  shows "accumulate mem kl (length ms) = length (concat (map fst ms))"
  using assms
proof (induction ms arbitrary: kl)
  case Nil
  show ?case by (simp add: accumulate_def)
next
  case (Cons m ms)
  from Cons.prems(1) have k: "load_bytes mem kl (length (length_bytes (of_nat (length (fst m)) :: ukv_length_t)) + length (key_lengths_bytes ms)) =
      length_bytes (of_nat (length (fst m))) @ key_lengths_bytes ms"
    by (simp add: key_lengths_bytes_Cons)
  from load_bytes_append[OF k] have k1: "load_length mem kl = of_nat (length (fst m))"
    and k2: "load_bytes mem (kl + 4) (4 * length ms) = key_lengths_bytes ms"
    by (simp_all add: load_length_bytes)
  from Cons.prems(2) have b: "length (fst m) < 2 ^ 32" and r: "\<forall>m \<in> set ms. length (fst m) < 2 ^ 32"
    by simp_all
  have "accumulate mem (kl + 4) (length ms) = length (concat (map fst ms))"
    by (rule Cons.IH[OF k2 r])
  moreover have "accumulate mem kl (length (m # ms)) =
      unat (load_length mem kl) + accumulate mem (kl + 4) (length ms)"
    unfolding accumulate_def by (simp add: sum_list_upt_Suc counter_size_k_def algebra_simps del: upt_Suc)
  ultimately show ?case using b by (simp add: k1 unat_of_nat_length)
qed

lemma member_layout_append:
  "member_layout i kc vc (ms1 @ ms2) =
     member_layout i kc vc ms1 @
     member_layout (i + length ms1) (kc + length (concat (map fst ms1)))
       (vc + length (concat (map snd ms1))) ms2"
  by (induction ms1 arbitrary: i kc vc) (simp_all add: add.assoc)

lemma find_absent:
  assumes "load_bytes mem kc (length (concat (map fst ms))) = concat (map fst ms)"
    and "key_str \<notin> fst ` set ms"
  shows "foldl (\<lambda>result member. if view_bytes mem (fst (snd member)) = key_str then member else result)
           acc (member_layout i kc vc ms) = acc"
  using assms
proof (induction ms arbitrary: i kc vc)
  case Nil
  show ?case by simp
next
  case (Cons m ms)
  from Cons.prems(1) have "load_bytes mem kc (length (fst m) + length (concat (map fst ms))) =
      fst m @ concat (map fst ms)" by simp
  from load_bytes_append[OF this]
  have h: "load_bytes mem kc (length (fst m)) = fst m"
    and t: "load_bytes mem (kc + length (fst m)) (length (concat (map fst ms))) = concat (map fst ms)"
    by simp_all
  from Cons.prems(2) have ne: "fst m \<noteq> key_str" and r: "key_str \<notin> fst ` set ms" by auto
  from Cons.IH[OF t r] ne h show ?case by (simp add: view_bytes_def)
qed

lemma find_present:
  assumes "load_bytes mem kc (length (concat (map fst (ms1 @ (k, v) # ms2)))) =
             concat (map fst (ms1 @ (k, v) # ms2))"
    and "k \<notin> fst ` set ms1" and "k \<notin> fst ` set ms2"
  shows "foldl (\<lambda>result member. if view_bytes mem (fst (snd member)) = k then member else result)
           acc (member_layout i kc vc (ms1 @ (k, v) # ms2)) =
         (i + length ms1, (kc + length (concat (map fst ms1)), length k),
          Some (vc + length (concat (map snd ms1)), length v))"
proof -
  from assms(1) have "load_bytes mem kc (length (concat (map fst ms1)) +
      length (k @ concat (map fst ms2))) = concat (map fst ms1) @ (k @ concat (map fst ms2))"
    by simp
  from load_bytes_append[OF this]
  have c1: "load_bytes mem kc (length (concat (map fst ms1))) = concat (map fst ms1)"
    and c2: "load_bytes mem (kc + length (concat (map fst ms1))) (length k + length (concat (map fst ms2))) =
               k @ concat (map fst ms2)"
    by simp_all
  from load_bytes_append[OF c2]
  have ck: "load_bytes mem (kc + length (concat (map fst ms1))) (length k) = k"
    and c3: "load_bytes mem (kc + length (concat (map fst ms1)) + length k) (length (concat (map fst ms2))) =
               concat (map fst ms2)"
    by simp_all
  have vk: "view_bytes mem (kc + length (concat (map fst ms1)), length k) = k"
    by (simp add: view_bytes_def ck)
  show ?thesis
    by (simp add: member_layout_append find_absent[OF c1 assms(2)] find_absent[OF c3 assms(3)] vk)
qed

text \<open>The regions of a well-formed bucket.\<close>

lemma holds_bucket_regions:
  assumes "holds_bucket mem bucket ms" and "ms \<noteq> []"
  shows "bucket = Some (view_data bucket, length (bucket_bytes ms))"
    and "load_bytes mem (view_data bucket) 4 = length_bytes (of_nat (length ms))"
    and "load_bytes mem (view_data bucket + 4) (4 * length ms) = key_lengths_bytes ms"
    and "load_bytes mem (view_data bucket + 4 + 4 * length ms) (4 * length ms) = val_lengths_bytes ms"
    and "load_bytes mem (view_data bucket + 4 + 8 * length ms) (length (concat (map fst ms))) =
           concat (map fst ms)"
    and "load_bytes mem (view_data bucket + 4 + 8 * length ms + length (concat (map fst ms)))
           (length (concat (map snd ms))) = concat (map snd ms)"
    and "length (bucket_bytes ms) < 2 ^ 32"
    and "distinct (map fst ms)"
    and "load_bytes mem (view_data bucket) (length (bucket_bytes ms)) = bucket_bytes ms"
    and "view_size bucket = length (bucket_bytes ms)"
proof -
  let ?p = "view_data bucket"
  from assms show "bucket = Some (?p, length (bucket_bytes ms))"
    by (simp add: holds_bucket_def)
  from assms show "length (bucket_bytes ms) < 2 ^ 32"
    by (simp add: holds_bucket_def)
  from assms show "distinct (map fst ms)"
    by (simp add: holds_bucket_def)
  from assms show whole: "load_bytes mem ?p (length (bucket_bytes ms)) = bucket_bytes ms"
    by (simp add: holds_bucket_def)
  from assms have "bucket = Some (?p, length (bucket_bytes ms))"
    by (simp add: holds_bucket_def)
  from arg_cong[OF this, of view_size] show "view_size bucket = length (bucket_bytes ms)"
    by (simp add: view_size_def)
  from whole have a: "load_bytes mem ?p (length (length_bytes (of_nat (length ms) :: ukv_length_t)) +
      length (key_lengths_bytes ms @ val_lengths_bytes ms @ concat (map fst ms) @ concat (map snd ms))) =
      length_bytes (of_nat (length ms)) @
      (key_lengths_bytes ms @ val_lengths_bytes ms @ concat (map fst ms) @ concat (map snd ms))"
    by (simp add: bucket_bytes_def)
  from load_bytes_append[OF a]
  have r1: "load_bytes mem ?p 4 = length_bytes (of_nat (length ms))"
    and b: "load_bytes mem (?p + length (length_bytes (of_nat (length ms) :: ukv_length_t)))
        (length (key_lengths_bytes ms @ val_lengths_bytes ms @ concat (map fst ms) @ concat (map snd ms))) =
      key_lengths_bytes ms @ val_lengths_bytes ms @ concat (map fst ms) @ concat (map snd ms)"
    by simp_all
  from b have b': "load_bytes mem (?p + 4) (length (key_lengths_bytes ms) +
      length (val_lengths_bytes ms @ concat (map fst ms) @ concat (map snd ms))) =
      key_lengths_bytes ms @ (val_lengths_bytes ms @ concat (map fst ms) @ concat (map snd ms))"
    by simp
  from load_bytes_append[OF b']
  have r2: "load_bytes mem (?p + 4) (4 * length ms) = key_lengths_bytes ms"
    and c: "load_bytes mem (?p + 4 + length (key_lengths_bytes ms))
        (length (val_lengths_bytes ms @ concat (map fst ms) @ concat (map snd ms))) =
      val_lengths_bytes ms @ concat (map fst ms) @ concat (map snd ms)"
    by simp_all
  from c have c': "load_bytes mem (?p + 4 + 4 * length ms) (length (val_lengths_bytes ms) +
      length (concat (map fst ms) @ concat (map snd ms))) =
      val_lengths_bytes ms @ (concat (map fst ms) @ concat (map snd ms))"
    by simp
  from load_bytes_append[OF c']
  have r3: "load_bytes mem (?p + 4 + 4 * length ms) (4 * length ms) = val_lengths_bytes ms"
    and d: "load_bytes mem (?p + 4 + 4 * length ms + length (val_lengths_bytes ms))
        (length (concat (map fst ms) @ concat (map snd ms))) =
      concat (map fst ms) @ concat (map snd ms)"
    by simp_all
  from d have d': "load_bytes mem (?p + 4 + 8 * length ms) (length (concat (map fst ms)) +
      length (concat (map snd ms))) = concat (map fst ms) @ concat (map snd ms)"
    by (simp add: add.commute add.left_commute)
  from load_bytes_append[OF d']
  have r4: "load_bytes mem (?p + 4 + 8 * length ms) (length (concat (map fst ms))) = concat (map fst ms)"
    and r5: "load_bytes mem (?p + 4 + 8 * length ms + length (concat (map fst ms)))
           (length (concat (map snd ms))) = concat (map snd ms)"
    by simp_all
  show "load_bytes mem ?p 4 = length_bytes (of_nat (length ms))" by (rule r1)
  show "load_bytes mem (?p + 4) (4 * length ms) = key_lengths_bytes ms" by (rule r2)
  show "load_bytes mem (?p + 4 + 4 * length ms) (4 * length ms) = val_lengths_bytes ms" by (rule r3)
  show "load_bytes mem (?p + 4 + 8 * length ms) (length (concat (map fst ms))) = concat (map fst ms)"
    by (rule r4)
  show "load_bytes mem (?p + 4 + 8 * length ms + length (concat (map fst ms)))
           (length (concat (map snd ms))) = concat (map snd ms)" by (rule r5)
qed

lemma holds_bucket_bounds:
  assumes "length (bucket_bytes ms) < 2 ^ 32"
  shows "2 * length ms < 2 ^ 32" and "length ms < 2 ^ 32"
    and "\<forall>m \<in> set ms. length (fst m) < 2 ^ 32 \<and> length (snd m) < 2 ^ 32"
proof -
  from assms have l: "4 + 8 * length ms + length (concat (map fst ms)) + length (concat (map snd ms)) < 2 ^ 32"
    by (simp add: length_bucket_bytes)
  then show "2 * length ms < 2 ^ 32" and "length ms < 2 ^ 32" by simp_all
  show "\<forall>m \<in> set ms. length (fst m) < 2 ^ 32 \<and> length (snd m) < 2 ^ 32"
  proof
    fix m assume "m \<in> set ms"
    from length_member_le[OF this] l show "length (fst m) < 2 ^ 32 \<and> length (snd m) < 2 ^ 32"
      by simp
  qed
qed

lemma get_bucket_size_holds:
  assumes "holds_bucket mem bucket ms"
  shows "get_bucket_size mem bucket = of_nat (length ms)" and "unat (get_bucket_size mem bucket) = length ms"
proof -
  show g: "get_bucket_size mem bucket = of_nat (length ms)"
  proof (cases "ms = []")
    case True
    with assms show ?thesis
      by (simp add: holds_bucket_def get_bucket_size_def bytes_in_header_k_def counter_size_k_def)
  next
    case False
    note r = holds_bucket_regions[OF assms False]
    from False have "length ms > 0" by simp
    then have "length (bucket_bytes ms) > 4" by (simp add: length_bucket_bytes)
    moreover note r(10)
    ultimately show ?thesis
      by (simp add: get_bucket_size_def bytes_in_header_k_def counter_size_k_def
            load_length_bytes[OF r(2)])
  qed
  show "unat (get_bucket_size mem bucket) = length ms"
  proof (cases "ms = []")
    case True
    with g show ?thesis by simp
  next
    case False
    from holds_bucket_bounds(2)[OF holds_bucket_regions(7)[OF assms False]] g
    show ?thesis by (simp add: unat_of_nat_length)
  qed
qed

lemma for_each_in_bucket_holds:
  assumes "holds_bucket mem bucket ms"
  shows "for_each_in_bucket mem bucket =
           member_layout 0 (view_data bucket + 4 + 8 * length ms)
             (view_data bucket + 4 + 8 * length ms + length (concat (map fst ms))) ms"
proof (cases "ms = []")
  case True
  with get_bucket_size_holds(1)[OF assms] show ?thesis
    by (simp add: for_each_in_bucket_def)
next
  case False
  note r = holds_bucket_regions[OF assms False]
  note b = holds_bucket_bounds[OF r(7)]
  note g = get_bucket_size_holds[OF assms]
  from False b(2) have nz: "(of_nat (length ms) :: ukv_length_t) \<noteq> 0"
    by (metis g(1) g(2) length_0_conv unat_0)
  have two: "unat ((of_nat (length ms) :: ukv_length_t) * 2) = 2 * length ms"
  proof -
    have "(of_nat (length ms) :: ukv_length_t) * 2 = of_nat (2 * length ms)" by simp
    then show ?thesis using b(1) by (simp only: unat_of_nat_length)
  qed
  from b(3) have kb: "\<forall>m \<in> set ms. length (fst m) < 2 ^ 32" by simp
  have acc: "accumulate mem (view_data bucket + 4) (length ms) = length (concat (map fst ms))"
    by (rule accumulate_keys[OF r(3) kb])
  have "bucket_members mem (length ms) 0 (view_data bucket + 4, view_data bucket + 4 + 8 * length ms)
          (view_data bucket + 4 + 4 * length ms,
           view_data bucket + 4 + 8 * length ms + length (concat (map fst ms))) =
        member_layout 0 (view_data bucket + 4 + 8 * length ms)
          (view_data bucket + 4 + 8 * length ms + length (concat (map fst ms))) ms"
    by (rule bucket_members_layout[OF r(3) r(4) b(3)])
  moreover have un: "unat (of_nat (length ms) :: ukv_length_t) = length ms"
    using b(2) by (rule unat_of_nat_length)
  ultimately show ?thesis
    using nz
    by (simp add: for_each_in_bucket_def g(1) Let_def get_bucket_keys_def get_bucket_vals_def
          counter_size_k_def bytes_in_header_k_def two un acc algebra_simps)
qed

lemma find_in_bucket_present:
  assumes "holds_bucket mem bucket (ms1 @ (k, v) # ms2)"
  shows "find_in_bucket mem bucket k =
           (length ms1,
            (view_data bucket + 4 + 8 * length (ms1 @ (k, v) # ms2) + length (concat (map fst ms1)),
             length k),
            Some (view_data bucket + 4 + 8 * length (ms1 @ (k, v) # ms2) +
                    length (concat (map fst (ms1 @ (k, v) # ms2))) + length (concat (map snd ms1)),
                  length v))"
proof -
  have ne: "ms1 @ (k, v) # ms2 \<noteq> []" by simp
  note r = holds_bucket_regions[OF assms ne]
  from r(8) have d: "k \<notin> fst ` set ms1" "k \<notin> fst ` set ms2" by auto
  from find_present[OF r(5) d, of "(0, (0, 0), None)" 0] show ?thesis
    unfolding find_in_bucket_def for_each_in_bucket_holds[OF assms] by simp
qed

text \<open>
  So the removal of a member from a well-formed bucket with several members is out of
  bounds, whatever the bucket and the member, unless the memory goes on after the bucket.
\<close>

lemma remove_from_bucket_out_of_bounds:
  assumes h: "holds_bucket mem bucket (ms1 @ (k, v) # ms2)"
    and more: "ms1 @ ms2 \<noteq> []"
    and tight: "\<not> allocated mem (view_data bucket + view_size bucket)"
  shows "remove_from_bucket mem bucket k = None"
proof (rule ccontr)
  let ?ms = "ms1 @ (k, v) # ms2"
  let ?p = "view_data bucket"
  let ?vp = "?p + 4 + 8 * length ?ms + length (concat (map fst ?ms)) + length (concat (map snd ms1))"
  assume "remove_from_bucket mem bucket k \<noteq> None"
  then obtain r where res: "remove_from_bucket mem bucket k = Some r" by auto
  have ne: "?ms \<noteq> []" by simp
  note reg = holds_bucket_regions[OF h ne]
  from reg(1) have size: "view_size bucket = length (bucket_bytes ?ms)"
    by (metis (no_types, lifting) view_size_def option.simps(5) case_prod_conv)
  from more have len: "length ?ms \<noteq> 1" by (cases ms1; cases ms2) simp_all
  from get_bucket_size_holds(2)[OF h] len have one: "get_bucket_size mem bucket \<noteq> 1"
    by auto
  from res one obtain r1 where
    rp: "remove_part mem (?p, view_size bucket) (?vp, length v) = Some r1"
    by (auto simp: remove_from_bucket_def find_in_bucket_present[OF h] Let_def
             split: option.splits)
  have "allocated mem (fst (?p, view_size bucket) + snd (?p, view_size bucket))"
    by (rule remove_part_reads_past_the_end[OF rp]) (simp_all add: size length_bucket_bytes)
  with tight show False by simp
qed

text \<open>The buckets of the examples are well-formed.\<close>

lemma holds_bucket_examples:
  "holds_bucket mem_two bucket_two two_members \<and>
   holds_bucket tape_two bucket_two two_members \<and>
   holds_bucket tape_two bucket_next next_members"
  by (simp add: holds_bucket_def mem_two_def tape_two_def bucket_two_def bucket_next_def
        two_members_def next_members_def view_data_def bucket_bytes_def key_lengths_bytes_def
        val_lengths_bytes_def length_bytes_def load_bytes_def write_bytes_def arena_alloc_def
        zero_memory_def upt_rec)

text \<open>
  C6 does not hold of the code. The bucket holds \<open>a\<close> and \<open>bb\<close> in a block of exactly
  its 26 bytes, from the address 100. Removing \<open>a\<close>, whose value is the byte at 123, moves
  25 bytes from the address 124, of which only two are inside the block: the move is out
  of bounds, and no bucket is produced. With the same bucket at the head of a tape, where
  the bucket that holds \<open>c\<close> follows, the moves stay inside the tape and the produced
  bucket of 16 bytes holds \<open>bb\<close> alone; but they shift the bytes of the next bucket,
  which read \<open>c\<close> before and now announce 65536 members.
\<close>

theorem remove_from_bucket_moves_out_of_bounds:
  "bucket_two = Some (100, 26) \<and>
   bucket_read mem_two bucket_two [97] = Some [1] \<and>
   find_in_bucket mem_two bucket_two [97] = (0, (120, 1), Some (123, 1)) \<and>
   in_bounds mem_two 100 26 \<and> \<not> in_bounds mem_two 124 25 \<and>
   Option.is_none (remove_part mem_two (100, 26) (123, 1)) \<and>
   Option.is_none (remove_from_bucket mem_two bucket_two [97]) \<and>
   bucket_read tape_two bucket_two [97] = Some [1] \<and>
   bucket_read tape_two bucket_next [99] = Some [3] \<and>
   get_bucket_size tape_two bucket_next = 1 \<and>
   \<not> Option.is_none (remove_from_bucket tape_two bucket_two [97]) \<and>
   snd removed_on_tape = Some (100, 16) \<and>
   bucket_read (fst removed_on_tape) (snd removed_on_tape) [97] = None \<and>
   bucket_read (fst removed_on_tape) (snd removed_on_tape) [98, 98] = Some [2, 2] \<and>
   load_bytes tape_two 126 14 = [1, 0, 0, 0, 1, 0, 0, 0, 1, 0, 0, 0, 99, 3] \<and>
   load_bytes (fst removed_on_tape) 126 14 = [0, 0, 1, 0, 0, 0, 1, 0, 0, 0, 99, 3, 0, 0] \<and>
   get_bucket_size (fst removed_on_tape) bucket_next = 65536"
  by code_simp

subsection \<open>Prefix scan\<close>

text \<open>
  C8 does not hold of the code. On a collection with one bucket, which holds
  \<open>home/a\<close>, the scan for the prefix \<open>home/\<close> with no previous path and room for 10
  returns nothing: a scan that returns one bucket ends the loop. On the collection of
  scenario 4, with room for 3, it returns \<open>home/b\<close>, \<open>home/a\<close> and \<open>home/b\<close> again:
  once a path is found the next round starts from the beginning of the collection. And
  continuing after \<open>home/b\<close> returns \<open>home/a\<close>, \<open>home/b\<close> and \<open>home/a\<close>, the
  previous path among them.
\<close>

theorem scan_one_collection_one_range_misses_and_repeats:
  "scan_one_collection_one_range 5 debug_hash zero_memory 0 one_bucket_collection
     home_prefix [] 10 = Some (0, []) \<and>
   scan_one_collection_one_range 5 debug_hash zero_memory 0 two_bucket_collection
     home_prefix [] 3 = Some (3, [home_b, home_a, home_b]) \<and>
   scan_one_collection_one_range 5 debug_hash zero_memory 0 two_bucket_collection
     home_prefix home_b 3 = Some (3, [home_a, home_b, home_a])"
  by code_simp

subsection \<open>Reading paths\<close>

lemma store_at_length: "store_at out xs i v = Inr ys \<Longrightarrow> length ys = length xs"
  by (auto simp: store_at_def split: if_splits)

lemma paths_read_rows_offsets_length:
  "paths_read_rows buckets_values i rows st = Inr st' \<Longrightarrow>
   length (offsets st') = length (offsets st)"
proof (induction rows arbitrary: i st)
  case Nil
  then show ?case by simp
next
  case (Cons row rows)
  obtain key_str bucket where row: "row = (key_str, bucket)" by (cases row)
  from Cons.prems show ?case
    by (auto simp: row split: option.splits sum.splits dest!: Cons.IH dest: store_at_length)
qed

text \<open>
  No call of \<open>ukv_paths_read\<close> completes: the array of offsets has as many elements as
  there are tasks, so that the store of the final offset, when the loop gets there, is
  past its end.
\<close>

lemma ukv_paths_read_never_returns:
  "\<exists>e. ukv_paths_read hash mem tape collection paths = Inl e"
proof -
  obtain mem' offs where r: "ukv_read_tape mem tape collection (map hash paths) = (mem', offs)"
    by (cases "ukv_read_tape mem tape collection (map hash paths)")
  show ?thesis
    by (auto simp: ukv_paths_read_def Let_def r alloc_or_dummy_def store_at_def
             split: sum.splits dest!: paths_read_rows_offsets_length)
qed

text \<open>
  C9 does not hold of the code. With one task, the loop stores the offset 0 of the task,
  and the store of the final offset, at index 1 of an array of one element, is out of
  bounds; with no task it is the store at index 0 of an empty array.
\<close>

theorem ukv_paths_read_final_offset_out_of_bounds:
  "isl (ukv_paths_read debug_hash zero_memory 0 one_bucket_collection [home_a]) \<and>
   projl (ukv_paths_read debug_hash zero_memory 0 one_bucket_collection [home_a]) =
     Out_of_bounds Offsets 1 \<and>
   isl (ukv_paths_read debug_hash zero_memory 0 one_bucket_collection []) \<and>
   projl (ukv_paths_read debug_hash zero_memory 0 one_bucket_collection []) =
     Out_of_bounds Offsets 0"
  by code_simp

end
